theory Spec2Isabelle
  imports Main "HOL-Library.Sublist" "HOL-Library.Log_Nat"
begin

section \<open>Counting records and sorting\<close>

text \<open>
  The component counts into objects of type \<^verbatim>\<open>Record<string, number>\<close> with
  \<^verbatim>\<open>counts[k] = (counts[k] || 0) + 1\<close> and later reads them with
  \<^verbatim>\<open>Object.entries\<close>, which lists string keys in the order of their first
  assignment (the keys of this program are mood, day and theme names, none of
  them an array index). Such a record is an association list in insertion
  order: an increment of a key that is present changes its count in place, an
  increment of a new key appends it.
\<close>

fun increment :: "'k \<Rightarrow> ('k \<times> nat) list \<Rightarrow> ('k \<times> nat) list" where
  "increment k [] = [(k, 1)]"
| "increment k ((k', n) # kvs) =
     (if k = k' then (k', n + 1) # kvs else (k', n) # increment k kvs)"

text \<open>
  \<^verbatim>\<open>.sort((a, b) => b[1] - a[1])\<close>: the sort of an array of entries by count,
  largest first. \<^verbatim>\<open>Array.prototype.sort\<close> is stable, so entries of equal count
  keep their order.
\<close>

definition sortByCountDesc :: "('k \<times> nat) list \<Rightarrow> ('k \<times> nat) list" where
  "sortByCountDesc kvs = sort_key (\<lambda>p. - int (snd p)) kvs"

section \<open>Number arithmetic\<close>

text \<open>
  JavaScript numbers are IEEE 754 doubles. A finite double is a rational, and
  every operation returns the exact result rounded to the nearest double, ties
  to the even significand. \<open>fl\<close> is that rounding for the normal range (53
  significant bits; the counts and percentages of this program are far from
  overflow and underflow). \<open>binaryExponent x\<close> is the exponent \<open>e\<close> with
  \<open>2 powi e \<le> \<bar>x\<bar> < 2 powi (e + 1)\<close>.
\<close>

definition binaryExponent :: "rat \<Rightarrow> int" where
  "binaryExponent x =
     (let (a, b) = quotient_of \<bar>x\<bar>;
          k = bitlen a - bitlen b
      in if 2 powi k \<le> \<bar>x\<bar> then k else k - 1)"

definition roundHalfEven :: "rat \<Rightarrow> int" where
  "roundHalfEven z =
     (let f = \<lfloor>z\<rfloor>; d = z - of_int f
      in if d < 1 / 2 then f
         else if 1 / 2 < d then f + 1
         else if even f then f else f + 1)"

definition fl :: "rat \<Rightarrow> rat" where
  "fl x =
     (if x = 0 then 0
      else let u = 2 powi (binaryExponent x - 52)
           in of_int (roundHalfEven (x / u)) * u)"

text \<open>\<^verbatim>\<open>a / b\<close> (with \<open>b \<noteq> 0\<close>) and \<^verbatim>\<open>a * b\<close> on numbers.\<close>

definition fdiv :: "rat \<Rightarrow> rat \<Rightarrow> rat" where
  "fdiv a b = fl (a / b)"

definition fmul :: "rat \<Rightarrow> rat \<Rightarrow> rat" where
  "fmul a b = fl (a * b)"

text \<open>\<^verbatim>\<open>Math.round\<close>: the nearest integer, a tie going up (towards \<open>+\<infinity>\<close>).\<close>

definition mathRound :: "rat \<Rightarrow> int" where
  "mathRound x = \<lfloor>x + 1 / 2\<rfloor>"

section \<open>Journal entries\<close>

text \<open>
  Modelled from the spec: the type \<^verbatim>\<open>JournalEntry\<close> is declared in \<^verbatim>\<open>../App\<close>,
  which is not among the sources. The spec gives it as
  \<^verbatim>\<open>{ id, date: instant, mood: one of a fixed mood enum, content: text }\<close>; the
  moods are the seven keys of the component's emoji, label and colour tables.
  The component tests \<^verbatim>\<open>if (entry.mood)\<close>, so an entry may have no mood. The
  \<^verbatim>\<open>id\<close> is never read. A date is an instant, in milliseconds since the epoch.
\<close>

datatype mood = Joy | Calm | Sad | Anxious | Stressed | Motivated | Grateful

record JournalEntry =
  date :: int
  mood :: "mood option"
  content :: string

section \<open>Window aggregation (the Insights component)\<close>

subsection \<open>Mood counts, dominant mood, percentages\<close>

definition getMoodCounts :: "JournalEntry list \<Rightarrow> (mood \<times> nat) list" where
  "getMoodCounts entries =
     fold (\<lambda>entry counts. case mood entry of
                              Some m \<Rightarrow> increment m counts
                            | None \<Rightarrow> counts)
          entries []"

definition totalWithMood :: "JournalEntry list \<Rightarrow> nat" where
  "totalWithMood entries = fold (\<lambda>b a. a + b) (map snd (getMoodCounts entries)) 0"

definition dominantMood :: "JournalEntry list \<Rightarrow> mood option" where
  "dominantMood entries =
     (case sortByCountDesc (getMoodCounts entries) of
        [] \<Rightarrow> None
      | p # _ \<Rightarrow> Some (fst p))"

text \<open>
  The percentage shown for each row of the mood table:
  \<^verbatim>\<open>totalWithMood > 0 ? Math.round((count / totalWithMood) * 100) : 0\<close>.
\<close>

definition percentage :: "JournalEntry list \<Rightarrow> nat \<Rightarrow> int" where
  "percentage entries count =
     (if totalWithMood entries > 0
      then mathRound (fmul (fdiv (of_nat count) (of_nat (totalWithMood entries))) 100)
      else 0)"

definition moodPercentages :: "JournalEntry list \<Rightarrow> (mood \<times> int) list" where
  "moodPercentages entries =
     map (\<lambda>(m, count). (m, percentage entries count)) (getMoodCounts entries)"

subsection \<open>Weekly windows\<close>

text \<open>
  The clock and the calendar are the platform's, and parameters here.
  \<open>clock k\<close> is the instant that the evaluation number \<open>k\<close> of \<^verbatim>\<open>new Date()\<close>
  during one render returns. \<open>daysBefore n t\<close> is the instant that
  \<^verbatim>\<open>d.setDate(d.getDate() - n)\<close> leaves in a date \<open>d\<close> of instant \<open>t\<close>: \<open>n\<close> days
  earlier in the local calendar, at the same time of day (so not always
  \<open>n\<close> times 24 hours earlier).

  Each callback of a filter makes its own dates. The callbacks of
  \<^verbatim>\<open>weekEntries\<close> evaluate \<^verbatim>\<open>new Date()\<close> once for each entry; they are the first
  evaluations of the render. The callbacks of \<^verbatim>\<open>prevWeekEntries\<close> evaluate it
  twice for each entry, for \<^verbatim>\<open>twoWeeksAgo\<close> and then for \<^verbatim>\<open>weekAgo\<close>, and follow
  those of \<^verbatim>\<open>weekEntries\<close>.
\<close>

definition msPerDay :: int where
  "msPerDay = 86400000"

fun weekFilter :: "(int \<Rightarrow> int \<Rightarrow> int) \<Rightarrow> (nat \<Rightarrow> int) \<Rightarrow> nat \<Rightarrow> JournalEntry list
    \<Rightarrow> JournalEntry list" where
  "weekFilter daysBefore clock k [] = []"
| "weekFilter daysBefore clock k (e # es) =
     (let weekAgo = daysBefore 7 (clock k)
      in (if date e \<ge> weekAgo then [e] else []) @ weekFilter daysBefore clock (k + 1) es)"

definition weekEntries :: "(int \<Rightarrow> int \<Rightarrow> int) \<Rightarrow> (nat \<Rightarrow> int) \<Rightarrow> JournalEntry list
    \<Rightarrow> JournalEntry list" where
  "weekEntries daysBefore clock entries = weekFilter daysBefore clock 0 entries"

fun prevWeekFilter :: "(int \<Rightarrow> int \<Rightarrow> int) \<Rightarrow> (nat \<Rightarrow> int) \<Rightarrow> nat \<Rightarrow> JournalEntry list
    \<Rightarrow> JournalEntry list" where
  "prevWeekFilter daysBefore clock k [] = []"
| "prevWeekFilter daysBefore clock k (e # es) =
     (let twoWeeksAgo = daysBefore 14 (clock k);
          weekAgo = daysBefore 7 (clock (k + 1))
      in (if date e \<ge> twoWeeksAgo \<and> date e < weekAgo then [e] else [])
         @ prevWeekFilter daysBefore clock (k + 2) es)"

definition prevWeekEntries :: "(int \<Rightarrow> int \<Rightarrow> int) \<Rightarrow> (nat \<Rightarrow> int) \<Rightarrow> JournalEntry list
    \<Rightarrow> JournalEntry list" where
  "prevWeekEntries daysBefore clock entries =
     prevWeekFilter daysBefore clock (length entries) entries"

subsection \<open>Mood trend\<close>

datatype direction = Up | Down | Neutral

record trend =
  change :: int
  direction :: direction

definition thisWeekCount :: "(int \<Rightarrow> int \<Rightarrow> int) \<Rightarrow> (nat \<Rightarrow> int) \<Rightarrow> JournalEntry list
    \<Rightarrow> mood \<Rightarrow> nat" where
  "thisWeekCount daysBefore clock entries m =
     length (filter (\<lambda>e. mood e = Some m) (weekEntries daysBefore clock entries))"

definition lastWeekCount :: "(int \<Rightarrow> int \<Rightarrow> int) \<Rightarrow> (nat \<Rightarrow> int) \<Rightarrow> JournalEntry list
    \<Rightarrow> mood \<Rightarrow> nat" where
  "lastWeekCount daysBefore clock entries m =
     length (filter (\<lambda>e. mood e = Some m) (prevWeekEntries daysBefore clock entries))"

text \<open>
  \<^verbatim>\<open>Math.round(((thisWeekCount - lastWeekCount) / lastWeekCount) * 100)\<close>, computed
  when \<^verbatim>\<open>lastWeekCount\<close> is not 0.
\<close>

definition percentChange :: "nat \<Rightarrow> nat \<Rightarrow> int" where
  "percentChange thisWeek lastWeek =
     mathRound (fmul (fdiv (of_int (int thisWeek - int lastWeek)) (of_nat lastWeek)) 100)"

definition getMoodTrend :: "(int \<Rightarrow> int \<Rightarrow> int) \<Rightarrow> (nat \<Rightarrow> int) \<Rightarrow> JournalEntry list
    \<Rightarrow> mood \<Rightarrow> trend" where
  "getMoodTrend daysBefore clock entries m =
     (if lastWeekCount daysBefore clock entries m = 0
      then \<lparr>change = 0, direction = Neutral\<rparr>
      else let pc = percentChange (thisWeekCount daysBefore clock entries m)
                                  (lastWeekCount daysBefore clock entries m)
           in \<lparr>change = \<bar>pc\<bar>,
               direction = (if pc > 0 then Up else if pc < 0 then Down else Neutral)\<rparr>)"

subsection \<open>Writing habits\<close>

text \<open>
  \<^verbatim>\<open>getDayName\<close> and \<^verbatim>\<open>getHours\<close> read a date in local time; \<open>tz\<close> is the offset
  of local time from UTC in milliseconds. 1 January 1970 was a Thursday.
\<close>

definition dayNames :: "string list" where
  "dayNames = [''Sunday'', ''Monday'', ''Tuesday'', ''Wednesday'', ''Thursday'',
               ''Friday'', ''Saturday'']"

definition getDayName :: "int \<Rightarrow> int \<Rightarrow> string" where
  "getDayName tz d = dayNames ! nat (((d + tz) div msPerDay + 4) mod 7)"

definition getHours :: "int \<Rightarrow> int \<Rightarrow> int" where
  "getHours tz d = ((d + tz) mod msPerDay) div 3600000"

definition dayFrequency :: "int \<Rightarrow> JournalEntry list \<Rightarrow> (string \<times> nat) list" where
  "dayFrequency tz entries =
     fold (\<lambda>entry freq. increment (getDayName tz (date entry)) freq) entries []"

definition mostCommonDay :: "int \<Rightarrow> JournalEntry list \<Rightarrow> string" where
  "mostCommonDay tz entries =
     (case sortByCountDesc (dayFrequency tz entries) of
        [] \<Rightarrow> ''Tuesday''
      | p # _ \<Rightarrow> if fst p = [] then ''Tuesday'' else fst p)"

definition avgHour :: "int \<Rightarrow> JournalEntry list \<Rightarrow> int" where
  "avgHour tz entries =
     (if length entries > 0
      then mathRound (fdiv (of_int (fold (\<lambda>e sum. sum + getHours tz (date e)) entries 0))
                           (of_nat (length entries)))
      else 20)"

section \<open>Theme extraction\<close>

text \<open>
  Texts are strings of code units in the Latin-1 range. \<^verbatim>\<open>toLowerCase\<close> maps
  \<open>A\<close>--\<open>Z\<close> and the accented capitals (C0--DE without D7) to the letter 32
  places up and leaves every other code unit alone.
\<close>

definition toLowerChar :: "char \<Rightarrow> char" where
  "toLowerChar c =
     (let n = (of_char c :: nat)
      in if (65 \<le> n \<and> n \<le> 90) \<or> (192 \<le> n \<and> n \<le> 222 \<and> n \<noteq> 215)
         then char_of (n + 32) else c)"

definition toLowerCase :: "string \<Rightarrow> string" where
  "toLowerCase s = map toLowerChar s"

text \<open>\<^verbatim>\<open>s.includes(keyword)\<close>: the keyword occurs in \<open>s\<close> as a contiguous substring.\<close>

fun str_includes :: "string \<Rightarrow> string \<Rightarrow> bool" where
  "str_includes [] keyword = (keyword = [])"
| "str_includes (c # cs) keyword = (prefix keyword (c # cs) \<or> str_includes cs keyword)"

definition themeKeywords :: "(string \<times> string list) list" where
  "themeKeywords =
     [(''Work'', [''work'', ''project'', ''meeting'', ''deadline'', ''presentation'', ''team'',
                  ''office'', ''job'']),
      (''Family'', [''family'', ''mom'', ''dad'', ''parent'', ''child'', ''kid'', ''sibling'',
                    ''brother'', ''sister'']),
      (''Friends'', [''friend'', ''conversation'', ''hang'', ''catch up'', ''connected'']),
      (''Health'', [''health'', ''exercise'', ''workout'', ''run'', ''walk'', ''meditation'',
                    ''yoga'']),
      (''Mindfulness'', [''mindful'', ''meditation'', ''grateful'', ''reflect'', ''peace'',
                         ''calm'', ''present'']),
      (''Nature'', [''park'', ''sunset'', ''outdoor'', ''walk'', ''nature'', ''weather'', ''sky'']),
      (''Productivity'', [''focus'', ''productive'', ''prioritize'', ''organize'', ''accomplish'',
                          ''goals'']),
      (''Growth'', [''learn'', ''growth'', ''improve'', ''better'', ''progress'', ''develop'',
                    ''patient'']),
      (''Stress'', [''stress'', ''overwhelm'', ''anxious'', ''worried'', ''pressure'']),
      (''Books'', [''book'', ''read'', ''reading''])]"

text \<open>
  The three nested \<^verbatim>\<open>forEach\<close> loops of \<^verbatim>\<open>extractThemes\<close>, innermost first: over the
  keywords of one theme, over the themes, over the entries.
\<close>

definition scanKeywords :: "string \<Rightarrow> string \<Rightarrow> string list \<Rightarrow> (string \<times> nat) list
    \<Rightarrow> (string \<times> nat) list" where
  "scanKeywords contentLower theme keywords themeCounts =
     fold (\<lambda>keyword tc. if str_includes contentLower keyword then increment theme tc else tc)
          keywords themeCounts"

definition scanEntry :: "JournalEntry \<Rightarrow> (string \<times> nat) list \<Rightarrow> (string \<times> nat) list" where
  "scanEntry entry themeCounts =
     (let contentLower = toLowerCase (content entry)
      in fold (\<lambda>(theme, keywords) tc. scanKeywords contentLower theme keywords tc)
              themeKeywords themeCounts)"

definition themeCounts :: "JournalEntry list \<Rightarrow> (string \<times> nat) list" where
  "themeCounts entries = fold scanEntry entries []"

definition extractThemes :: "JournalEntry list \<Rightarrow> (string \<times> nat) list" where
  "extractThemes entries = take 5 (sortByCountDesc (themeCounts entries))"

section \<open>Response parsing\<close>

subsection \<open>JSON values\<close>

text \<open>
  The values \<^verbatim>\<open>JSON.parse\<close> returns. A number is a double: finite, or an
  infinity (from a literal such as \<^verbatim>\<open>1e999\<close>); \<^verbatim>\<open>JSON.parse\<close> never returns
  \<^verbatim>\<open>NaN\<close>. An object is the list of its own properties.
\<close>

datatype number = Finite rat | PosInfinity | NegInfinity

datatype json =
    JNull
  | JBool bool
  | JNumber number
  | JString string
  | JArray "json list"
  | JObject "(string \<times> json) list"

text \<open>\<^verbatim>\<open>parsed?.key\<close>: the property of an object, \<^verbatim>\<open>undefined\<close> (\<open>None\<close>) otherwise.\<close>

fun getProp :: "json \<Rightarrow> string \<Rightarrow> json option" where
  "getProp (JObject kvs) key = map_of kvs key"
| "getProp _ key = None"

text \<open>Truthiness, as \<^verbatim>\<open>||\<close> tests it.\<close>

fun truthy :: "json \<Rightarrow> bool" where
  "truthy JNull = False"
| "truthy (JBool b) = b"
| "truthy (JNumber n) = (n \<noteq> Finite 0)"
| "truthy (JString s) = (s \<noteq> [])"
| "truthy (JArray xs) = True"
| "truthy (JObject kvs) = True"

text \<open>\<^verbatim>\<open>v || ''\<close> for a possibly undefined \<open>v\<close>.\<close>

definition orEmpty :: "json option \<Rightarrow> json" where
  "orEmpty v = (case v of Some x \<Rightarrow> if truthy x then x else JString [] | None \<Rightarrow> JString [])"

text \<open>
  \<^verbatim>\<open>String(v)\<close>, which can throw: \<open>None\<close> is the \<^verbatim>\<open>TypeError\<close>. The decimal
  rendering of a finite number is the platform's \<^verbatim>\<open>Number::toString\<close>, a
  parameter here. An array is the join of its elements by commas, \<^verbatim>\<open>null\<close>
  elements giving the empty string and every other element its own string. An
  object is converted by its \<^verbatim>\<open>toString\<close> method: that of \<^verbatim>\<open>Object.prototype\<close>, which
  gives \<^verbatim>\<open>[object Object]\<close>, unless the object has a property named \<^verbatim>\<open>toString\<close>
  of its own. A property that comes from JSON is not a function, and
  \<^verbatim>\<open>valueOf\<close> gives no primitive either, so the conversion of such an object
  throws.
\<close>

fun intercalate :: "string \<Rightarrow> string list \<Rightarrow> string" where
  "intercalate sep [] = []"
| "intercalate sep [s] = s"
| "intercalate sep (s # t # ss) = s @ sep @ intercalate sep (t # ss)"

fun toString :: "(rat \<Rightarrow> string) \<Rightarrow> json \<Rightarrow> string option" where
  "toString fmt JNull = Some ''null''"
| "toString fmt (JBool b) = Some (if b then ''true'' else ''false'')"
| "toString fmt (JNumber n) =
     Some (case n of Finite q \<Rightarrow> fmt q | PosInfinity \<Rightarrow> ''Infinity''
                   | NegInfinity \<Rightarrow> ''-Infinity'')"
| "toString fmt (JString s) = Some s"
| "toString fmt (JArray xs) =
     map_option (intercalate '','')
       (those (map (\<lambda>x. if x = JNull then Some [] else toString fmt x) xs))"
| "toString fmt (JObject kvs) =
     (if map_of kvs ''toString'' = None then Some ''[object Object]'' else None)"

subsection \<open>Whitespace and the fence patterns\<close>

text \<open>
  The white space of \<^verbatim>\<open>trim\<close> and of \<^verbatim>\<open>\s\<close> in the Latin-1 range: tab, line
  feed, vertical tab, form feed, carriage return, space, no-break space.
\<close>

definition isSpace :: "char \<Rightarrow> bool" where
  "isSpace c = ((of_char c :: nat) \<in> {9, 10, 11, 12, 13, 32, 160})"

definition trim :: "string \<Rightarrow> string" where
  "trim s = rev (dropWhile isSpace (rev (dropWhile isSpace s)))"

text \<open>
  \<^verbatim>\<open>.replace(/^```(?:json)?\s*\n?/, '')\<close>: at the start of the text, three backticks,
  an optional \<^verbatim>\<open>json\<close> and all the white space that follows are removed.
\<close>

definition stripLeadingFence :: "string \<Rightarrow> string" where
  "stripLeadingFence s =
     (if prefix ''```'' s
      then let r = drop 3 s;
               r' = (if prefix ''json'' r then drop 4 r else r)
           in dropWhile isSpace r'
      else s)"

text \<open>
  \<^verbatim>\<open>.replace(/\n?```\s*$/, '')\<close>: the leftmost place from which the rest of the text
  is an optional line feed, three backticks and white space only; the text is
  cut there.
\<close>

definition fenceTail :: "string \<Rightarrow> bool" where
  "fenceTail s =
     (if prefix (CHR 0x0A # ''```'') s then list_all isSpace (drop 4 s)
      else if prefix ''```'' s then list_all isSpace (drop 3 s)
      else False)"

fun stripTrailingFence :: "string \<Rightarrow> string" where
  "stripTrailingFence [] = []"
| "stripTrailingFence (c # cs) =
     (if fenceTail (c # cs) then [] else c # stripTrailingFence cs)"

definition cleanText :: "string \<Rightarrow> string" where
  "cleanText text = trim (stripTrailingFence (stripLeadingFence (trim text)))"

text \<open>
  \<^verbatim>\<open>clean.match(/\{[\s\S]*\}/)\<close>: from the first opening brace to the last closing
  brace after it, if there is one.
\<close>

definition braceSpan :: "string \<Rightarrow> string option" where
  "braceSpan s =
     (let r = dropWhile (\<lambda>c. c \<noteq> CHR ''{'') s
      in if r \<noteq> [] \<and> CHR ''}'' \<in> set (tl r)
         then Some (rev (dropWhile (\<lambda>c. c \<noteq> CHR ''}'') (rev r)))
         else None)"

subsection \<open>extractJson and parseOpenAIInsights\<close>

text \<open>
  \<^verbatim>\<open>JSON.parse\<close> is the platform's: a parameter \<open>parse\<close> that returns the value
  (\<open>Inr\<close>) or the message of the \<^verbatim>\<open>SyntaxError\<close> it throws (\<open>Inl\<close>). An
  \<^verbatim>\<open>OpenAIParseError\<close> carries its message, the raw text and the parser's message
  (its \<^verbatim>\<open>name\<close> is a constant).
\<close>

record OpenAIParseError =
  message :: string
  rawText :: string
  parseError :: "string option"

definition extractJson :: "(string \<Rightarrow> string + json) \<Rightarrow> string \<Rightarrow> OpenAIParseError + json" where
  "extractJson parse text =
     (let clean = cleanText text
      in case parse clean of
           Inr v \<Rightarrow> Inr v
         | Inl directErr \<Rightarrow>
             (case braceSpan clean of
                None \<Rightarrow> Inl \<lparr>message = ''No JSON found in response'', rawText = text,
                             parseError = Some directErr\<rparr>
              | Some m \<Rightarrow>
                  (case parse m of
                     Inr v \<Rightarrow> Inr v
                   | Inl regexErr \<Rightarrow>
                       Inl \<lparr>message = ''Failed to parse JSON from response'', rawText = text,
                            parseError = Some regexErr\<rparr>)))"

record OpenAIInsightResponse =
  howYouFelt :: string
  weeklySummary :: json
  moodDrivers :: "json list"
  patterns :: "json list"
  suggestions :: "json list"
  confidence :: number

text \<open>\<^verbatim>\<open>Array.isArray(v) ? v : []\<close> and \<^verbatim>\<open>typeof v === 'number' ? v : 0.5\<close>.\<close>

definition arrayOrEmpty :: "json option \<Rightarrow> json list" where
  "arrayOrEmpty v = (case v of Some (JArray xs) \<Rightarrow> xs | _ \<Rightarrow> [])"

definition numberOrHalf :: "json option \<Rightarrow> number" where
  "numberOrHalf v = (case v of Some (JNumber n) \<Rightarrow> n | _ \<Rightarrow> Finite (1 / 2))"

text \<open>
  What \<^verbatim>\<open>parseOpenAIInsights\<close> throws: the \<^verbatim>\<open>OpenAIParseError\<close> of \<^verbatim>\<open>extractJson\<close>, or
  the \<^verbatim>\<open>TypeError\<close> of \<^verbatim>\<open>String\<close>. The fields of the result are evaluated in the
  order of the source, \<^verbatim>\<open>howYouFelt\<close> first.
\<close>

datatype exception = ParseError OpenAIParseError | TypeError

definition buildResponse :: "(rat \<Rightarrow> string) \<Rightarrow> json \<Rightarrow> exception + OpenAIInsightResponse" where
  "buildResponse fmt parsed =
     (case toString fmt (orEmpty (getProp parsed ''howYouFelt'')) of
        None \<Rightarrow> Inl TypeError
      | Some felt \<Rightarrow>
          Inr \<lparr>howYouFelt = trim felt,
               weeklySummary = orEmpty (getProp parsed ''weeklySummary''),
               moodDrivers = arrayOrEmpty (getProp parsed ''moodDrivers''),
               patterns = arrayOrEmpty (getProp parsed ''patterns''),
               suggestions = arrayOrEmpty (getProp parsed ''suggestions''),
               confidence = numberOrHalf (getProp parsed ''confidence'')\<rparr>)"

definition parseOpenAIInsights ::
    "(string \<Rightarrow> string + json) \<Rightarrow> (rat \<Rightarrow> string) \<Rightarrow> string
      \<Rightarrow> exception + OpenAIInsightResponse" where
  "parseOpenAIInsights parse fmt text =
     (case extractJson parse text of
        Inl err \<Rightarrow> Inl (ParseError err)
      | Inr parsed \<Rightarrow> buildResponse fmt parsed)"

section \<open>Notions used to state the properties\<close>

text \<open>
  The count a record holds for a key (\<^verbatim>\<open>counts[k] || 0\<close>), and the distinct
  elements of a list in the order of their first occurrence.
\<close>

definition lookupCount :: "'k \<Rightarrow> ('k \<times> nat) list \<Rightarrow> nat" where
  "lookupCount k kvs = (case map_of kvs k of None \<Rightarrow> 0 | Some n \<Rightarrow> n)"

fun firsts :: "'a list \<Rightarrow> 'a list" where
  "firsts [] = []"
| "firsts (x # xs) = x # removeAll x (firsts xs)"

text \<open>
  The moods of a collection in entry order, the number of entries of the whole
  collection with a given mood, and a collection with its dates replaced.
\<close>

definition moodsOf :: "JournalEntry list \<Rightarrow> mood list" where
  "moodsOf entries = concat (map (\<lambda>e. case mood e of Some m \<Rightarrow> [m] | None \<Rightarrow> []) entries)"

definition moodCount :: "mood \<Rightarrow> JournalEntry list \<Rightarrow> nat" where
  "moodCount m entries = length (filter (\<lambda>e. mood e = Some m) entries)"

definition redate :: "(JournalEntry \<Rightarrow> int) \<Rightarrow> JournalEntry list \<Rightarrow> JournalEntry list" where
  "redate f entries = map (\<lambda>e. e\<lparr>date := f e\<rparr>) entries"

text \<open>
  The number of keywords of a list that occur in the lower-cased text of an
  entry, and the themes an entry matches: each theme once per matching
  keyword, in the order of the dictionary.
\<close>

definition keywordHits :: "string list \<Rightarrow> JournalEntry \<Rightarrow> nat" where
  "keywordHits keywords entry =
     length (filter (str_includes (toLowerCase (content entry))) keywords)"

definition themeHits :: "JournalEntry \<Rightarrow> string list" where
  "themeHits entry =
     concat (map (\<lambda>(theme, keywords). replicate (keywordHits keywords entry) theme)
                 themeKeywords)"

text \<open>The keywords the dictionary declares for \<^verbatim>\<open>Mindfulness\<close>.\<close>

definition mindfulnessKeywords :: "string list" where
  "mindfulnessKeywords =
     [''mindful'', ''meditation'', ''grateful'', ''reflect'', ''peace'', ''calm'', ''present'']"

section \<open>Insight results as the spec gives them\<close>

text \<open>
  An \<^verbatim>\<open>InsightResult\<close>-shaped JSON object, in the spec's words: \<^verbatim>\<open>howYouFelt\<close> a
  text, \<^verbatim>\<open>weeklySummary\<close> a text, the three list fields sequences of texts,
  \<^verbatim>\<open>confidence\<close> a number. The interface \<^verbatim>\<open>OpenAIInsightResponse\<close> makes every field
  but \<^verbatim>\<open>howYouFelt\<close> optional; an absent field is \<open>None\<close>. \<open>insightObject\<close> is the
  JSON object, \<open>insightOf\<close> the same structure with the defaults (empty text,
  empty sequence, 0.5) in the place of the absent fields.
\<close>

definition field :: "string \<Rightarrow> json option \<Rightarrow> (string \<times> json) list" where
  "field key v = (case v of None \<Rightarrow> [] | Some x \<Rightarrow> [(key, x)])"

definition insightObject :: "string \<Rightarrow> string option \<Rightarrow> string list option \<Rightarrow> string list option
    \<Rightarrow> string list option \<Rightarrow> rat option \<Rightarrow> json" where
  "insightObject h w ds ps ss c =
     JObject ((''howYouFelt'', JString h)
              # field ''weeklySummary'' (map_option JString w)
              @ field ''moodDrivers'' (map_option (\<lambda>xs. JArray (map JString xs)) ds)
              @ field ''patterns'' (map_option (\<lambda>xs. JArray (map JString xs)) ps)
              @ field ''suggestions'' (map_option (\<lambda>xs. JArray (map JString xs)) ss)
              @ field ''confidence'' (map_option (\<lambda>q. JNumber (Finite q)) c))"

definition insightOf :: "string \<Rightarrow> string option \<Rightarrow> string list option \<Rightarrow> string list option
    \<Rightarrow> string list option \<Rightarrow> rat option \<Rightarrow> OpenAIInsightResponse" where
  "insightOf h w ds ps ss c =
     \<lparr>howYouFelt = h,
      weeklySummary = JString (case w of None \<Rightarrow> [] | Some x \<Rightarrow> x),
      moodDrivers = map JString (case ds of None \<Rightarrow> [] | Some xs \<Rightarrow> xs),
      patterns = map JString (case ps of None \<Rightarrow> [] | Some xs \<Rightarrow> xs),
      suggestions = map JString (case ss of None \<Rightarrow> [] | Some xs \<Rightarrow> xs),
      confidence = Finite (case c of None \<Rightarrow> 1 / 2 | Some q \<Rightarrow> q)\<rparr>"

text \<open>A confidence in range: a finite number between 0 and 1.\<close>

definition inUnitInterval :: "number \<Rightarrow> bool" where
  "inUnitInterval n = (case n of Finite q \<Rightarrow> 0 \<le> q \<and> q \<le> 1 | _ \<Rightarrow> False)"

section \<open>Sample inputs\<close>

text \<open>
  A platform for the concrete evaluations: a time zone whose clock never
  changes, such as UTC, where a calendar day is 24 hours, and a render during
  which every evaluation of \<^verbatim>\<open>new Date()\<close> returns the same instant \<open>now\<close>.
  \<open>tickingClock\<close> is a clock that starts at 0 and advances by a millisecond at
  each evaluation.
\<close>

definition utcDaysBefore :: "int \<Rightarrow> int \<Rightarrow> int" where
  "utcDaysBefore n t = t - n * msPerDay"

definition frozenClock :: "int \<Rightarrow> nat \<Rightarrow> int" where
  "frozenClock now k = now"

definition tickingClock :: "nat \<Rightarrow> int" where
  "tickingClock k = int k"

text \<open>Entries and collections used to evaluate the definitions at concrete inputs.\<close>

definition calmAt :: "int \<Rightarrow> JournalEntry" where
  "calmAt d = \<lparr>date = d, mood = Some Calm, content = []\<rparr>"

definition futureEntry :: JournalEntry where
  "futureEntry = \<lparr>date = 86400000, mood = Some Joy, content = ''tomorrow''\<rparr>"

definition boundaryEntry :: JournalEntry where
  "boundaryEntry = \<lparr>date = - 604800000, mood = Some Joy, content = ''a week ago''\<rparr>"

text \<open>
  With \<open>now = 0\<close>: 257 calm entries of yesterday and 256 calm entries of ten
  days ago; four of yesterday and two of ten days ago; three of yesterday.
\<close>

definition steadyFortnight :: "JournalEntry list" where
  "steadyFortnight =
     replicate 257 (calmAt (- 86400000)) @ replicate 256 (calmAt (- 864000000))"

definition doubledFortnight :: "JournalEntry list" where
  "doubledFortnight =
     replicate 4 (calmAt (- 86400000)) @ replicate 2 (calmAt (- 864000000))"

definition freshWeek :: "JournalEntry list" where
  "freshWeek = replicate 3 (calmAt (- 86400000))"

text \<open>
  An entry of thirty days before \<open>now = 0\<close>; a collection in which \<^verbatim>\<open>sad\<close> and
  \<^verbatim>\<open>joy\<close> both occur twice, \<^verbatim>\<open>sad\<close> first and only in entries older than two
  weeks; entries for the theme scan.
\<close>

definition oldEntry :: JournalEntry where
  "oldEntry = \<lparr>date = - 2592000000, mood = Some Joy, content = ''a month ago''\<rparr>"

definition tiedMoods :: "JournalEntry list" where
  "tiedMoods =
     [\<lparr>date = - 2592000000, mood = Some Sad, content = []\<rparr>,
      \<lparr>date = - 86400000, mood = Some Joy, content = []\<rparr>,
      \<lparr>date = - 172800000, mood = None, content = []\<rparr>,
      \<lparr>date = - 3456000000, mood = Some Sad, content = []\<rparr>,
      \<lparr>date = - 172800000, mood = Some Joy, content = []\<rparr>]"

definition peacefulEntry :: JournalEntry where
  "peacefulEntry = \<lparr>date = 0, mood = Some Calm, content = ''Calm meditation brought peace''\<rparr>"

definition stillEntry :: JournalEntry where
  "stillEntry = \<lparr>date = 0, mood = Some Calm, content = ''Meditation kept me calm''\<rparr>"

definition bookEntry :: JournalEntry where
  "bookEntry = \<lparr>date = 0, mood = None, content = ''book''\<rparr>"

definition workEntry :: JournalEntry where
  "workEntry = \<lparr>date = 86400000, mood = None, content = ''work''\<rparr>"

text \<open>
  Response texts: an object whose \<^verbatim>\<open>howYouFelt\<close> starts with a space, an object
  with a confidence of 5, a fenced object with \<^verbatim>\<open>howYouFelt\<close> only, and fenced
  prose.
\<close>

definition paddedText :: string where
  \<open>paddedText =
     ''{"howYouFelt":" ok","weeklySummary":"","moodDrivers":[],"patterns":[],''
     @ ''"suggestions":[],"confidence":0.5}''\<close>

definition overconfidentText :: string where
  \<open>overconfidentText = ''{"confidence": 5}''\<close>

definition sparseText :: string where
  \<open>sparseText =
     ''```json'' @ [CHR 0x0A] @ ''{"howYouFelt": " A calm week. "}'' @ [CHR 0x0A] @ ''```''\<close>

definition proseText :: string where
  "proseText = ''```'' @ [CHR 0x0A] @ ''I felt calm this week.'' @ [CHR 0x0A] @ ''```''"

text \<open>
  The behaviour of \<^verbatim>\<open>JSON.parse\<close> on the texts of these samples: \<open>sampleParse\<close>
  returns the value \<^verbatim>\<open>JSON.parse\<close> returns for \<^verbatim>\<open>null\<close>, for the three objects
  above and for \<^verbatim>\<open>{"howYouFelt":{"toString":1}}\<close>, an object whose \<^verbatim>\<open>howYouFelt\<close> has
  a \<^verbatim>\<open>toString\<close> of its own, and rejects every other text; the other texts it is
  applied to below
  (\<^verbatim>\<open>I felt calm this week.\<close>, \<^verbatim>\<open>see {this}\<close> and \<^verbatim>\<open>{this}\<close>) are not JSON. The
  message stands for the one the engine gives. \<open>sampleFormat\<close> is
  \<^verbatim>\<open>Number::toString\<close> on the numbers of the samples, 5 and 0.5.
\<close>

definition sampleParse :: "string \<Rightarrow> string + json" where
  \<open>sampleParse s =
     (if s = ''null'' then Inr JNull
      else if s = paddedText
      then Inr (insightObject '' ok'' (Some []) (Some []) (Some []) (Some []) (Some (1 / 2)))
      else if s = overconfidentText
      then Inr (JObject [(''confidence'', JNumber (Finite 5))])
      else if s = ''{"howYouFelt": " A calm week. "}''
      then Inr (JObject [(''howYouFelt'', JString '' A calm week. '')])
      else if s = ''{"howYouFelt":{"toString":1}}''
      then Inr (JObject [(''howYouFelt'', JObject [(''toString'', JNumber (Finite 1))])])
      else Inl ''Unexpected token'')\<close>

definition sampleFormat :: "rat \<Rightarrow> string" where
  "sampleFormat q = (if q = 5 then ''5'' else if q = 1 / 2 then ''0.5'' else [])"

section \<open>Properties of the number arithmetic\<close>

lemma quotient_of_abs_pos:
  assumes "x \<noteq> 0" "quotient_of \<bar>x\<bar> = (a, b)"
  shows "0 < a" "0 < b" "\<bar>x\<bar> = of_int a / of_int b"
proof -
  show b: "0 < b" using assms(2) quotient_of_denom_pos by blast
  show eq: "\<bar>x\<bar> = of_int a / of_int b" using assms(2) quotient_of_div by blast
  have "0 < \<bar>x\<bar>" using assms(1) by simp
  then show "0 < a" using b eq by (simp add: zero_less_divide_iff)
qed

lemma powi_two_pos: "(0::rat) < 2 powi k"
  by (simp add: power_int_def)

lemma powi_two_mono: "j \<le> k \<Longrightarrow> (2::rat) powi j \<le> 2 powi k"
  by (rule power_int_increasing) simp_all

lemma powi_two_diff: "(2::rat) powi (m - n) = 2 powi m / 2 powi n"
  by (rule power_int_diff) simp

lemma binaryExponent_bounds:
  assumes "x \<noteq> 0"
  shows "2 powi binaryExponent x \<le> \<bar>x\<bar> \<and> \<bar>x\<bar> < 2 powi (binaryExponent x + 1)"
proof -
  obtain a b where q: "quotient_of \<bar>x\<bar> = (a, b)" by (cases "quotient_of \<bar>x\<bar>")
  note ab = quotient_of_abs_pos[OF assms q]
  define k where "k = bitlen a - bitlen b"
  have ba: "2 ^ nat (bitlen a - 1) \<le> a \<and> a < 2 ^ nat (bitlen a)"
    using bitlen_bounds[OF ab(1)] .
  have bb: "2 ^ nat (bitlen b - 1) \<le> b \<and> b < 2 ^ nat (bitlen b)"
    using bitlen_bounds[OF ab(2)] .
  have la: "0 < bitlen a" using ab(1) bitlen_nonneg[of a] bitlen_eq_zero_iff[of a] by force
  have lb: "0 < bitlen b" using ab(2) bitlen_nonneg[of b] bitlen_eq_zero_iff[of b] by force
  have a_lo: "(2::rat) powi (bitlen a - 1) \<le> of_int a"
  proof -
    have "(of_int (2 ^ nat (bitlen a - 1)) :: rat) \<le> of_int a" using ba by (simp only: of_int_le_iff)
    then show ?thesis using la by (simp add: power_int_def)
  qed
  have a_hi: "of_int a < (2::rat) powi (bitlen a)"
  proof -
    have "(of_int a :: rat) < of_int (2 ^ nat (bitlen a))" using ba by (simp only: of_int_less_iff)
    then show ?thesis using la by (simp add: power_int_def)
  qed
  have b_lo: "(2::rat) powi (bitlen b - 1) \<le> of_int b"
  proof -
    have "(of_int (2 ^ nat (bitlen b - 1)) :: rat) \<le> of_int b" using bb by (simp only: of_int_le_iff)
    then show ?thesis using lb by (simp add: power_int_def)
  qed
  have b_hi: "of_int b < (2::rat) powi (bitlen b)"
  proof -
    have "(of_int b :: rat) < of_int (2 ^ nat (bitlen b))" using bb by (simp only: of_int_less_iff)
    then show ?thesis using lb by (simp add: power_int_def)
  qed
  have bpos: "(0::rat) < of_int b" using ab(2) by simp
  have upper: "\<bar>x\<bar> < 2 powi (k + 1)"
  proof -
    have "(of_int a :: rat) / of_int b < 2 powi (bitlen a) / 2 powi (bitlen b - 1)"
      using ab(1) a_hi powi_two_pos[of "bitlen b - 1"] b_lo by (intro frac_less) simp_all
    moreover have "(2::rat) powi (k + 1) = 2 powi (bitlen a) / 2 powi (bitlen b - 1)"
    proof -
      have "k + 1 = bitlen a - (bitlen b - 1)" by (simp add: k_def)
      then show ?thesis by (simp only: powi_two_diff)
    qed
    ultimately show ?thesis by (simp only: ab(3))
  qed
  have lower: "2 powi (k - 1) < \<bar>x\<bar>"
  proof -
    have "(2::rat) powi (bitlen a - 1) / 2 powi (bitlen b) < of_int a / of_int b"
      using powi_two_pos[of "bitlen a - 1"] a_lo bpos b_hi by (intro frac_less2) simp_all
    moreover have "(2::rat) powi (k - 1) = 2 powi (bitlen a - 1) / 2 powi (bitlen b)"
    proof -
      have "k - 1 = (bitlen a - 1) - bitlen b" by (simp add: k_def)
      then show ?thesis by (simp only: powi_two_diff)
    qed
    ultimately show ?thesis by (simp only: ab(3))
  qed
  have be: "binaryExponent x = (if 2 powi k \<le> \<bar>x\<bar> then k else k - 1)"
    by (simp add: binaryExponent_def q k_def Let_def)
  show ?thesis
  proof (cases "2 powi k \<le> \<bar>x\<bar>")
    case True
    then show ?thesis using upper by (simp add: be)
  next
    case False
    then show ?thesis using lower by (simp add: be)
  qed
qed

lemma binaryExponent_eqI:
  assumes "2 powi e \<le> \<bar>x\<bar>" "\<bar>x\<bar> < 2 powi (e + 1)"
  shows "binaryExponent x = e"
proof -
  have nz: "x \<noteq> 0"
  proof
    assume "x = 0"
    then have "2 powi e \<le> (0::rat)" using assms(1) by simp
    then show False using powi_two_pos[of e] by linarith
  qed
  note b = binaryExponent_bounds[OF nz]
  show ?thesis
  proof (rule ccontr)
    assume ne: "binaryExponent x \<noteq> e"
    show False
    proof (cases "binaryExponent x < e")
      case True
      then have "(2::rat) powi (binaryExponent x + 1) \<le> 2 powi e" by (intro powi_two_mono) simp
      then show False using b assms(1) by linarith
    next
      case False
      then have "(2::rat) powi (e + 1) \<le> 2 powi (binaryExponent x)" using ne by (intro powi_two_mono) simp
      then show False using b assms(2) by linarith
    qed
  qed
qed

lemma fl_eval:
  assumes "2 powi e \<le> \<bar>x\<bar>" "\<bar>x\<bar> < 2 powi (e + 1)"
  shows "fl x = of_int (roundHalfEven (x / 2 powi (e - 52))) * 2 powi (e - 52)"
proof -
  have nz: "x \<noteq> 0"
  proof
    assume "x = 0"
    then have "2 powi e \<le> (0::rat)" using assms(1) by simp
    then show False using powi_two_pos[of e] by linarith
  qed
  show ?thesis by (simp add: fl_def nz binaryExponent_eqI[OF assms] Let_def)
qed

lemma roundHalfEven_range: "\<lfloor>z\<rfloor> \<le> roundHalfEven z \<and> roundHalfEven z \<le> \<lfloor>z\<rfloor> + 1"
  by (simp add: roundHalfEven_def Let_def)

lemma roundHalfEven_zero: "roundHalfEven 0 = 0"
  by (simp add: roundHalfEven_def)

lemma roundHalfEven_pos:
  assumes "0 < roundHalfEven z"
  shows "0 < z"
proof (rule ccontr)
  assume "\<not> 0 < z"
  then consider "z = 0" | "z < 0" by fastforce
  then show False
  proof cases
    case 1
    then show False using assms by (simp add: roundHalfEven_zero)
  next
    case 2
    then have "\<lfloor>z\<rfloor> < 0" by (simp add: floor_less_zero)
    then show False using assms roundHalfEven_range[of z] by linarith
  qed
qed

lemma roundHalfEven_neg:
  assumes "roundHalfEven z < 0"
  shows "z < 0"
proof -
  have "\<lfloor>z\<rfloor> < 0" using assms roundHalfEven_range[of z] by linarith
  then show ?thesis by (simp add: floor_less_zero)
qed

lemma fl_pos:
  assumes "0 < fl x"
  shows "0 < x"
proof -
  define u :: rat where "u = 2 powi (binaryExponent x - 52)"
  have u: "0 < u" by (simp add: u_def powi_two_pos)
  have nz: "x \<noteq> 0" using assms by (auto simp: fl_def)
  then have "fl x = of_int (roundHalfEven (x / u)) * u" by (simp add: fl_def u_def Let_def)
  then have "0 < (of_int (roundHalfEven (x / u)) :: rat)" using assms u by (simp add: zero_less_mult_iff)
  then have "0 < x / u" using roundHalfEven_pos by simp
  then show ?thesis using u by (simp add: zero_less_divide_iff)
qed

lemma fl_neg:
  assumes "fl x < 0"
  shows "x < 0"
proof -
  define u :: rat where "u = 2 powi (binaryExponent x - 52)"
  have u: "0 < u" by (simp add: u_def powi_two_pos)
  have nz: "x \<noteq> 0" using assms by (auto simp: fl_def)
  then have "fl x = of_int (roundHalfEven (x / u)) * u" by (simp add: fl_def u_def Let_def)
  then have "(of_int (roundHalfEven (x / u)) :: rat) < 0" using assms u by (simp add: mult_less_0_iff)
  then have "x / u < 0" using roundHalfEven_neg by simp
  then show ?thesis using u by (simp add: divide_less_0_iff)
qed

lemma fl_zero: "fl 0 = 0"
  by (simp add: fl_def)

lemma floor_rat_numeral_div: "\<lfloor>(numeral a / numeral b :: rat)\<rfloor> = numeral a div numeral b"
  by (metis floor_divide_of_int_eq of_int_numeral)

lemma mathRound_pos: "0 < mathRound y \<Longrightarrow> 0 < y"
  unfolding mathRound_def by (simp add: zero_less_floor) 

lemma mathRound_neg: "mathRound y < 0 \<Longrightarrow> y < 0"
  unfolding mathRound_def by (simp add: floor_less_zero) 

lemma percentChange_pos:
  assumes "0 < percentChange c p" "0 < p"
  shows "p < c"
proof -
  have "0 < fmul (fdiv (of_int (int c - int p)) (of_nat p)) 100"
    using assms(1) unfolding percentChange_def by (rule mathRound_pos)
  then have "0 < fdiv (of_int (int c - int p)) (of_nat p) * 100"
    unfolding fmul_def by (rule fl_pos)
  then have "0 < fl (of_int (int c - int p) / of_nat p)"
    by (simp add: fdiv_def)
  then have "(0::rat) < of_int (int c - int p) / of_nat p" by (rule fl_pos)
  then have "(0::rat) < of_int (int c - int p)" using assms(2) by (simp add: zero_less_divide_iff)
  then show ?thesis by simp
qed

lemma percentChange_neg:
  assumes "percentChange c p < 0" "0 < p"
  shows "c < p"
proof -
  have "fmul (fdiv (of_int (int c - int p)) (of_nat p)) 100 < 0"
    using assms(1) unfolding percentChange_def by (rule mathRound_neg)
  then have "fdiv (of_int (int c - int p)) (of_nat p) * 100 < 0"
    unfolding fmul_def by (rule fl_neg)
  then have "fl (of_int (int c - int p) / of_nat p) < 0"
    by (simp add: fdiv_def)
  then have "of_int (int c - int p) / of_nat p < (0::rat)" by (rule fl_neg)
  then have "of_int (int c - int p) < (0::rat)" using assms(2) by (simp add: divide_less_0_iff)
  then show ?thesis by simp
qed

lemma floor_rat_one_div: "\<lfloor>(1 / numeral b :: rat)\<rfloor> = 1 div numeral b"
  by (metis floor_divide_of_int_eq of_int_numeral of_int_1)

lemma percentChange_same: "percentChange p p = 0"
  by (simp add: percentChange_def fdiv_def fmul_def fl_zero mathRound_def floor_rat_one_div)

lemma fl_one: "fl 1 = 1"
  by (subst fl_eval[where e=0]) (simp_all add: roundHalfEven_def)

lemma fl_hundred: "fl 100 = 100"
  by (subst fl_eval[where e=6]) (simp_all add: roundHalfEven_def)

lemma percentChange_4_2: "percentChange 4 2 = 100"
  by (simp add: percentChange_def fdiv_def fmul_def fl_one fl_hundred mathRound_def floor_rat_numeral_div)

lemma fl_256th: "fl (1 / 256) = 1 / 256"
  by (subst fl_eval[where e="-8"]) (simp_all add: roundHalfEven_def)

lemma fl_25_64: "fl (25 / 64) = 25 / 64"
  by (subst fl_eval[where e="-2"]) (simp_all add: roundHalfEven_def)

lemma percentChange_257_256: "percentChange 257 256 = 0"
  by (simp add: percentChange_def fdiv_def fmul_def fl_256th fl_25_64 mathRound_def floor_rat_numeral_div)

section \<open>The weekly windows\<close>

lemma weekFilter_frozen:
  "\<forall>k. clock k = now \<Longrightarrow>
     weekFilter daysBefore clock k entries = filter (\<lambda>e. daysBefore 7 now \<le> date e) entries"
  by (induction entries arbitrary: k) simp_all

lemma prevWeekFilter_frozen:
  "\<forall>k. clock k = now \<Longrightarrow>
     prevWeekFilter daysBefore clock k entries
       = filter (\<lambda>e. daysBefore 14 now \<le> date e \<and> date e < daysBefore 7 now) entries"
  by (induction entries arbitrary: k) simp_all

lemma weekEntries_frozenClock:
  "weekEntries daysBefore (frozenClock now) entries
     = filter (\<lambda>e. daysBefore 7 now \<le> date e) entries"
  by (simp add: weekEntries_def weekFilter_frozen frozenClock_def)

lemma prevWeekEntries_frozenClock:
  "prevWeekEntries daysBefore (frozenClock now) entries
     = filter (\<lambda>e. daysBefore 14 now \<le> date e \<and> date e < daysBefore 7 now) entries"
  by (simp add: prevWeekEntries_def prevWeekFilter_frozen frozenClock_def)

lemmas utc_eval = weekEntries_frozenClock prevWeekEntries_frozenClock utcDaysBefore_def msPerDay_def

text \<open>
  The two sets are disjoint for one reference instant only. When the clock
  advances by a millisecond at each evaluation, an entry dated exactly seven
  days before the start of the render is in both sets.
\<close>

lemma boundary_entry_in_both_windows:
  "weekEntries utcDaysBefore tickingClock [boundaryEntry] = [boundaryEntry]
   \<and> prevWeekEntries utcDaysBefore tickingClock [boundaryEntry] = [boundaryEntry]"
  by (simp add: weekEntries_def prevWeekEntries_def utcDaysBefore_def msPerDay_def
      tickingClock_def boundaryEntry_def)

text \<open>
  Claim C2, as the spec states it: the current entry set contains exactly the
  entries with \<open>now - 7d \<le> date < now\<close>, and no entry dated at or after \<open>now\<close>
  is in it. The filter of \<^verbatim>\<open>weekEntries\<close> has no upper bound: with every reading
  of the clock at \<open>now = 0\<close>, in a zone without clock changes, an entry dated
  tomorrow is in the current set.
\<close>

theorem weekEntries_keeps_future_entry:
  "futureEntry \<in> set (weekEntries utcDaysBefore (frozenClock 0) [futureEntry])
   \<and> \<not> date futureEntry < 0"
  by (simp add: utc_eval futureEntry_def)

text \<open>
  Claim C2, amended: for every entry collection and reference \<open>now\<close>, provided
  that every reading of the clock during the render gives \<open>now\<close>, and with
  \<open>now - 7d\<close> and \<open>now - 14d\<close> the instants seven and fourteen days before \<open>now\<close>
  in the local calendar, as \<^verbatim>\<open>setDate\<close> computes them: the current entry set
  contains exactly the entries with \<open>now - 7d \<le> date\<close> (there is no upper bound,
  so with \<open>now - 7d \<le> now\<close> an entry dated at or after \<open>now\<close> is in it), the
  previous entry set contains exactly the entries with
  \<open>now - 14d \<le> date < now - 7d\<close>, and the two sets are disjoint. When the local
  clock does not change in the two weeks, the bounds are 604800000 ms and
  1209600000 ms before \<open>now\<close>.
\<close>

theorem week_windows:
  assumes "\<forall>k. clock k = now"
  shows "(e \<in> set (weekEntries daysBefore clock entries) \<longleftrightarrow>
            e \<in> set entries \<and> daysBefore 7 now \<le> date e)
   \<and> (e \<in> set (prevWeekEntries daysBefore clock entries) \<longleftrightarrow>
        e \<in> set entries \<and> daysBefore 14 now \<le> date e \<and> date e < daysBefore 7 now)
   \<and> set (weekEntries daysBefore clock entries)
        \<inter> set (prevWeekEntries daysBefore clock entries) = {}
   \<and> (daysBefore 7 now \<le> now \<and> e \<in> set entries \<and> now \<le> date e \<longrightarrow>
        e \<in> set (weekEntries daysBefore clock entries))
   \<and> (daysBefore 7 now = now - 604800000 \<and> daysBefore 14 now = now - 1209600000 \<longrightarrow>
        (e \<in> set (weekEntries daysBefore clock entries) \<longleftrightarrow>
           e \<in> set entries \<and> now - 604800000 \<le> date e)
        \<and> (e \<in> set (prevWeekEntries daysBefore clock entries) \<longleftrightarrow>
           e \<in> set entries \<and> now - 1209600000 \<le> date e \<and> date e < now - 604800000))"
proof -
  have w: "weekEntries daysBefore clock entries
             = filter (\<lambda>e. daysBefore 7 now \<le> date e) entries"
    using assms by (simp add: weekEntries_def weekFilter_frozen)
  have p: "prevWeekEntries daysBefore clock entries
             = filter (\<lambda>e. daysBefore 14 now \<le> date e \<and> date e < daysBefore 7 now) entries"
    using assms by (simp add: prevWeekEntries_def prevWeekFilter_frozen)
  show ?thesis unfolding w p by auto
qed

theorem week_windows_witness:
  "futureEntry \<in> set (weekEntries utcDaysBefore (frozenClock 0) [futureEntry])
   \<and> futureEntry \<notin> set (prevWeekEntries utcDaysBefore (frozenClock 0) [futureEntry])
   \<and> utcDaysBefore 7 0 = 0 - 604800000 \<and> utcDaysBefore 14 0 = 0 - 1209600000"
  using week_windows[of "frozenClock 0" 0 futureEntry utcDaysBefore "[futureEntry]"]
  by (simp add: frozenClock_def futureEntry_def utcDaysBefore_def msPerDay_def)

section \<open>The mood trend\<close>

lemma steady_counts:
  "thisWeekCount utcDaysBefore (frozenClock 0) steadyFortnight Calm = 257
   \<and> lastWeekCount utcDaysBefore (frozenClock 0) steadyFortnight Calm = 256"
  by (simp add: thisWeekCount_def lastWeekCount_def utc_eval steadyFortnight_def calmAt_def)

lemma doubled_counts:
  "thisWeekCount utcDaysBefore (frozenClock 0) doubledFortnight Calm = 4
   \<and> lastWeekCount utcDaysBefore (frozenClock 0) doubledFortnight Calm = 2"
  by (simp add: thisWeekCount_def lastWeekCount_def utc_eval doubledFortnight_def calmAt_def)

lemma fresh_counts:
  "thisWeekCount utcDaysBefore (frozenClock 0) freshWeek Calm = 3
   \<and> lastWeekCount utcDaysBefore (frozenClock 0) freshWeek Calm = 0"
  by (simp add: thisWeekCount_def lastWeekCount_def utc_eval freshWeek_def calmAt_def)

text \<open>
  Claim C3, as the spec states it: when the previous count is not 0 the
  direction is up if \<open>cur > prev\<close>. With 256 entries of the mood in the previous
  window and 257 in the current one, the quotient \<open>1 / 256 * 100 = 0.390625\<close>
  rounds to 0 and the direction is neutral, not up.
\<close>

theorem getMoodTrend_small_rise_is_neutral:
  "thisWeekCount utcDaysBefore (frozenClock 0) steadyFortnight Calm = 257
   \<and> lastWeekCount utcDaysBefore (frozenClock 0) steadyFortnight Calm = 256
   \<and> getMoodTrend utcDaysBefore (frozenClock 0) steadyFortnight Calm
       = \<lparr>change = 0, direction = Neutral\<rparr>"
  by (simp add: getMoodTrend_def steady_counts percentChange_257_256)

text \<open>
  Claim C3, amended: with \<open>cur\<close> the current-window count and \<open>prev\<close> the
  previous-window count of a mood: if \<open>prev = 0\<close> the trend is neutral with change
  0 regardless of \<open>cur\<close>; otherwise, with \<open>p = Math.round((cur - prev) / prev * 100)\<close>
  the signed rounded percentage, the change is \<open>\<bar>p\<bar>\<close> (a non-negative integer)
  and the direction is up if \<open>p > 0\<close>, down if \<open>p < 0\<close> and neutral if \<open>p = 0\<close>.
  So the direction is up only if \<open>cur > prev\<close>, down only if \<open>cur < prev\<close>, and
  neutral with change 0 if \<open>cur = prev\<close> (a difference that rounds to 0 percent is
  neutral as well). In particular \<open>prev = 2\<close>, \<open>cur = 4\<close> yields direction up with
  change 100, and \<open>prev = 0\<close>, \<open>cur = 3\<close> yields direction neutral.
\<close>

theorem getMoodTrend_rounded_sign:
  "(lastWeekCount daysBefore clock entries m = 0 \<longrightarrow>
      getMoodTrend daysBefore clock entries m = \<lparr>change = 0, direction = Neutral\<rparr>)
   \<and> (lastWeekCount daysBefore clock entries m \<noteq> 0 \<longrightarrow>
        change (getMoodTrend daysBefore clock entries m)
          = \<bar>percentChange (thisWeekCount daysBefore clock entries m) (lastWeekCount daysBefore clock entries m)\<bar>
        \<and> direction (getMoodTrend daysBefore clock entries m)
          = (if percentChange (thisWeekCount daysBefore clock entries m) (lastWeekCount daysBefore clock entries m) > 0
             then Up
             else if percentChange (thisWeekCount daysBefore clock entries m) (lastWeekCount daysBefore clock entries m) < 0
             then Down else Neutral))
   \<and> 0 \<le> change (getMoodTrend daysBefore clock entries m)
   \<and> (direction (getMoodTrend daysBefore clock entries m) = Up \<longrightarrow>
        lastWeekCount daysBefore clock entries m < thisWeekCount daysBefore clock entries m)
   \<and> (direction (getMoodTrend daysBefore clock entries m) = Down \<longrightarrow>
        thisWeekCount daysBefore clock entries m < lastWeekCount daysBefore clock entries m)
   \<and> (thisWeekCount daysBefore clock entries m = lastWeekCount daysBefore clock entries m \<longrightarrow>
        getMoodTrend daysBefore clock entries m = \<lparr>change = 0, direction = Neutral\<rparr>)
   \<and> (lastWeekCount daysBefore clock entries m = 2 \<and> thisWeekCount daysBefore clock entries m = 4 \<longrightarrow>
        getMoodTrend daysBefore clock entries m = \<lparr>change = 100, direction = Up\<rparr>)
   \<and> (lastWeekCount daysBefore clock entries m = 0 \<and> thisWeekCount daysBefore clock entries m = 3 \<longrightarrow>
        direction (getMoodTrend daysBefore clock entries m) = Neutral)"
proof -
  define cur where "cur = thisWeekCount daysBefore clock entries m"
  define prev where "prev = lastWeekCount daysBefore clock entries m"
  define t where "t = getMoodTrend daysBefore clock entries m"
  have t: "t = (if prev = 0 then \<lparr>change = 0, direction = Neutral\<rparr>
                else \<lparr>change = \<bar>percentChange cur prev\<bar>,
                      direction = (if percentChange cur prev > 0 then Up
                            else if percentChange cur prev < 0 then Down else Neutral)\<rparr>)"
    by (simp add: t_def cur_def prev_def getMoodTrend_def Let_def)
  have up: "direction t = Up \<longrightarrow> prev < cur"
    using percentChange_pos[of cur prev] by (auto simp: t split: if_splits)
  have down: "direction t = Down \<longrightarrow> cur < prev"
    using percentChange_neg[of cur prev] by (auto simp: t split: if_splits)
  have same: "cur = prev \<longrightarrow> t = \<lparr>change = 0, direction = Neutral\<rparr>"
    by (simp add: t percentChange_same)
  have ex: "prev = 2 \<and> cur = 4 \<longrightarrow> t = \<lparr>change = 100, direction = Up\<rparr>"
    by (simp add: t percentChange_4_2)
  have "(prev = 0 \<longrightarrow> t = \<lparr>change = 0, direction = Neutral\<rparr>)
    \<and> (prev \<noteq> 0 \<longrightarrow> change t = \<bar>percentChange cur prev\<bar>
          \<and> direction t = (if percentChange cur prev > 0 then Up
                            else if percentChange cur prev < 0 then Down else Neutral))
    \<and> 0 \<le> change t
    \<and> (direction t = Up \<longrightarrow> prev < cur)
    \<and> (direction t = Down \<longrightarrow> cur < prev)
    \<and> (cur = prev \<longrightarrow> t = \<lparr>change = 0, direction = Neutral\<rparr>)
    \<and> (prev = 2 \<and> cur = 4 \<longrightarrow> t = \<lparr>change = 100, direction = Up\<rparr>)
    \<and> (prev = 0 \<and> cur = 3 \<longrightarrow> direction t = Neutral)"
    using up down same ex by (simp add: t)
  then show ?thesis unfolding cur_def prev_def t_def .
qed

theorem getMoodTrend_rounded_sign_witness:
  "getMoodTrend utcDaysBefore (frozenClock 0) doubledFortnight Calm
     = \<lparr>change = 100, direction = Up\<rparr>
   \<and> direction (getMoodTrend utcDaysBefore (frozenClock 0) freshWeek Calm) = Neutral"
  using getMoodTrend_rounded_sign[of utcDaysBefore "frozenClock 0" doubledFortnight Calm]
    getMoodTrend_rounded_sign[of utcDaysBefore "frozenClock 0" freshWeek Calm]
  by (simp add: doubled_counts fresh_counts)

section \<open>Writing habits of an empty collection\<close>

text \<open>
  Claim C10: when the entry collection is empty, the most frequent day of the
  week is the literal \<^verbatim>\<open>Tuesday\<close> and the mean writing hour is 20, whatever the
  time zone.
\<close>

theorem empty_collection_writing_habits:
  "mostCommonDay tz [] = ''Tuesday'' \<and> avgHour tz [] = 20"
  by (simp add: mostCommonDay_def avgHour_def dayFrequency_def sortByCountDesc_def)

section \<open>The response parser\<close>

subsection \<open>The cleaning steps\<close>

lemma trim_no_space_ends:
  assumes "s \<noteq> []" "\<not> isSpace (hd s)" "\<not> isSpace (last s)"
  shows "trim s = s"
proof -
  have a: "dropWhile isSpace s = s" using assms(1,2) by (cases s) simp_all
  have "rev s \<noteq> []" "\<not> isSpace (hd (rev s))" using assms(1,3) by (simp_all add: hd_rev)
  then have "dropWhile isSpace (rev s) = rev s" by (cases "rev s") simp_all
  then show ?thesis by (simp add: trim_def a)
qed

lemma fenceTail_last:
  assumes "fenceTail s"
  shows "last s = CHR 0x60 \<or> isSpace (last s)"
proof -
  have tail: "last (p @ r) = CHR 0x60 \<or> isSpace (last (p @ r))"
    if "p \<noteq> []" "last p = CHR 0x60" "list_all isSpace r" for p r :: string
  proof (cases "r = []")
    case True
    then show ?thesis using that by simp
  next
    case False
    then have "last r \<in> set r" by simp
    then show ?thesis using that(3) False by (simp add: list_all_iff)
  qed
  from assms consider
      "prefix (CHR 0x0A # ''```'') s" "list_all isSpace (drop 4 s)"
    | "prefix ''```'' s" "list_all isSpace (drop 3 s)"
    by (auto simp: fenceTail_def split: if_splits)
  then show ?thesis
  proof cases
    case 1
    then obtain r where s: "s = (CHR 0x0A # ''```'') @ r" by (auto simp: prefix_def)
    then have "list_all isSpace r" using 1(2) by simp
    then show ?thesis using tail[of "CHR 0x0A # ''```''" r] s by simp
  next
    case 2
    then obtain r where s: "s = ''```'' @ r" by (auto simp: prefix_def)
    then have "list_all isSpace r" using 2(2) by simp
    then show ?thesis using tail[of "''```''" r] s by simp
  qed
qed

lemma not_space_brace: "\<not> isSpace (CHR ''}'')" "\<not> isSpace (CHR ''{'')"
  by (simp_all add: isSpace_def)

lemma stripTrailingFence_closing_brace:
  "s \<noteq> [] \<Longrightarrow> last s = CHR ''}'' \<Longrightarrow> stripTrailingFence s = s"
proof (induction s)
  case Nil
  then show ?case by simp
next
  case (Cons c cs)
  have "\<not> fenceTail (c # cs)"
    using fenceTail_last[of "c # cs"] Cons.prems(2) not_space_brace(1) by auto
  moreover have "stripTrailingFence cs = cs"
  proof (cases "cs = []")
    case True
    then show ?thesis by simp
  next
    case False
    then show ?thesis using Cons by simp
  qed
  ultimately show ?case by simp
qed

lemma cleanText_object_text:
  assumes "text \<noteq> []" "hd text = CHR ''{''" "last text = CHR ''}''"
  shows "cleanText text = text"
proof -
  have t: "trim text = text"
    using assms not_space_brace by (intro trim_no_space_ends) simp_all
  have "\<not> prefix ''```'' text" using assms(1,2) by (cases "text") auto
  then have l: "stripLeadingFence text = text" by (simp add: stripLeadingFence_def)
  show ?thesis
    by (simp add: cleanText_def t l stripTrailingFence_closing_brace[OF assms(1,3)])
qed

lemma set_trim: "set (trim s) \<subseteq> set s"
  by (auto simp: trim_def dest!: set_dropWhileD)

lemma set_stripLeadingFence: "set (stripLeadingFence s) \<subseteq> set s"
  by (auto simp: stripLeadingFence_def Let_def dest!: set_dropWhileD dest: in_set_dropD)

lemma set_stripTrailingFence: "set (stripTrailingFence s) \<subseteq> set s"
  by (induction s) auto

lemma set_cleanText: "set (cleanText text) \<subseteq> set text"
  unfolding cleanText_def
  using set_trim set_stripLeadingFence set_stripTrailingFence by (meson subset_trans)

lemma braceSpan_no_open: "CHR ''{'' \<notin> set s \<Longrightarrow> braceSpan s = None"
  by (auto simp: braceSpan_def dropWhile_eq_Nil_conv)

lemma braceSpan_no_close:
  assumes "CHR ''}'' \<notin> set s"
  shows "braceSpan s = None"
proof -
  have "set (tl r) \<subseteq> set r" for r :: string by (cases r) auto
  then have "CHR ''}'' \<notin> set (tl (dropWhile (\<lambda>c. c \<noteq> CHR ''{'') s))"
    using assms set_dropWhileD by fastforce
  then show ?thesis by (simp add: braceSpan_def Let_def)
qed

lemma extractJson_direct:
  "parse (cleanText text) = Inr v \<Longrightarrow> extractJson parse text = Inr v"
  by (simp add: extractJson_def)

lemmas text_eval = cleanText_def trim_def isSpace_def stripLeadingFence_def fenceTail_def braceSpan_def

subsection \<open>Parse errors\<close>

text \<open>
  Claim C8, as the spec states it: any text containing no braces at all raises
  a parse error. The text \<^verbatim>\<open>null\<close> contains no brace and is JSON: the direct parse
  succeeds and the parser returns the defaults.
\<close>

theorem brace_free_text_can_parse:
  "CHR ''{'' \<notin> set ''null'' \<and> CHR ''}'' \<notin> set ''null''
   \<and> parseOpenAIInsights sampleParse sampleFormat ''null''
       = Inr \<lparr>howYouFelt = [], weeklySummary = JString [], moodDrivers = [], patterns = [],
              suggestions = [], confidence = Finite (1 / 2)\<rparr>"
  by (simp add: parseOpenAIInsights_def extractJson_def text_eval sampleParse_def
      buildResponse_def orEmpty_def arrayOrEmpty_def numberOrHalf_def)

text \<open>
  Claim C8, amended: for every input text on which the direct JSON parse fails
  and the brace-span fallback fails too (the cleaned text has no span from an
  opening to a closing brace, or the parse of that span fails), the parser
  raises a parse error that carries the original raw text verbatim (not the
  cleaned text) together with the message of the parse that failed last. In
  particular any text without an opening or without a closing brace raises it
  when its direct parse fails (a brace-free text that is JSON by itself, such as
  \<^verbatim>\<open>null\<close>, parses and raises nothing).
\<close>

theorem parse_error_keeps_raw_text:
  assumes "parse (cleanText text) = Inl directErr"
  shows "(braceSpan (cleanText text) = None \<longrightarrow>
            parseOpenAIInsights parse fmt text
              = Inl (ParseError \<lparr>message = ''No JSON found in response'', rawText = text,
                     parseError = Some directErr\<rparr>))
    \<and> (\<forall>span regexErr. braceSpan (cleanText text) = Some span \<and> parse span = Inl regexErr \<longrightarrow>
            parseOpenAIInsights parse fmt text
              = Inl (ParseError \<lparr>message = ''Failed to parse JSON from response'', rawText = text,
                     parseError = Some regexErr\<rparr>))
    \<and> (CHR ''{'' \<notin> set text \<or> CHR ''}'' \<notin> set text \<longrightarrow>
            parseOpenAIInsights parse fmt text
              = Inl (ParseError \<lparr>message = ''No JSON found in response'', rawText = text,
                     parseError = Some directErr\<rparr>))"
proof -
  have none: "parseOpenAIInsights parse fmt text
              = Inl (ParseError \<lparr>message = ''No JSON found in response'', rawText = text,
                     parseError = Some directErr\<rparr>)"
    if "braceSpan (cleanText text) = None"
    using that assms by (simp add: parseOpenAIInsights_def extractJson_def)
  have some: "parseOpenAIInsights parse fmt text
              = Inl (ParseError \<lparr>message = ''Failed to parse JSON from response'', rawText = text,
                     parseError = Some regexErr\<rparr>)"
    if "braceSpan (cleanText text) = Some span \<and> parse span = Inl regexErr" for span regexErr
    using that assms by (simp add: parseOpenAIInsights_def extractJson_def)
  have nobrace: "braceSpan (cleanText text) = None"
    if "CHR ''{'' \<notin> set text \<or> CHR ''}'' \<notin> set text"
    using that set_cleanText[of "text"] braceSpan_no_open[of "cleanText text"]
      braceSpan_no_close[of "cleanText text"] by blast
  show ?thesis
  proof (intro conjI impI allI)
    assume "braceSpan (cleanText text) = None"
    then show "parseOpenAIInsights parse fmt text
              = Inl (ParseError \<lparr>message = ''No JSON found in response'', rawText = text,
                     parseError = Some directErr\<rparr>)" by (rule none)
  next
    fix span regexErr
    assume a: "braceSpan (cleanText text) = Some span \<and> parse span = Inl regexErr"
    show "parseOpenAIInsights parse fmt text
              = Inl (ParseError \<lparr>message = ''Failed to parse JSON from response'', rawText = text,
                     parseError = Some regexErr\<rparr>)"
      using a by (rule some)
  next
    assume "CHR ''{'' \<notin> set text \<or> CHR ''}'' \<notin> set text"
    then have "braceSpan (cleanText text) = None" by (rule nobrace)
    then show "parseOpenAIInsights parse fmt text
              = Inl (ParseError \<lparr>message = ''No JSON found in response'', rawText = text,
                     parseError = Some directErr\<rparr>)" by (rule none)
  qed
qed

theorem parse_error_keeps_raw_text_witness:
  "parseOpenAIInsights sampleParse sampleFormat proseText
     = Inl (ParseError \<lparr>message = ''No JSON found in response'', rawText = proseText,
            parseError = Some ''Unexpected token''\<rparr>)
   \<and> parseOpenAIInsights sampleParse sampleFormat ''see {this}''
     = Inl (ParseError \<lparr>message = ''Failed to parse JSON from response'', rawText = ''see {this}'',
            parseError = Some ''Unexpected token''\<rparr>)"
proof -
  have c1: "cleanText proseText = ''I felt calm this week.''"
    by (simp add: text_eval proseText_def)
  have p1: "sampleParse (cleanText proseText) = Inl ''Unexpected token''"
    by (simp add: c1 sampleParse_def paddedText_def overconfidentText_def)
  have b1: "CHR ''{'' \<notin> set proseText" by (simp add: proseText_def)
  have c2: "cleanText ''see {this}'' = ''see {this}''" by (simp add: text_eval)
  have p2: "sampleParse (cleanText ''see {this}'') = Inl ''Unexpected token''"
    by (simp add: c2 sampleParse_def paddedText_def overconfidentText_def)
  have b2: "braceSpan (cleanText ''see {this}'') = Some ''{this}''" by (simp add: c2 text_eval)
  have p3: "sampleParse ''{this}'' = Inl ''Unexpected token''"
    by (simp add: sampleParse_def paddedText_def overconfidentText_def)
  show ?thesis
    using parse_error_keeps_raw_text[of sampleParse proseText "''Unexpected token''" sampleFormat]
      parse_error_keeps_raw_text[of sampleParse "''see {this}''" "''Unexpected token''"
        sampleFormat] p1 p2 b1 b2 p3
    by simp
qed

subsection \<open>The defaults\<close>

lemma trim_Nil: "trim [] = []"
  by (simp add: trim_def)

lemma buildResponse_Inr:
  "buildResponse fmt parsed = Inr r \<longleftrightarrow>
     (\<exists>felt. toString fmt (orEmpty (getProp parsed ''howYouFelt'')) = Some felt
        \<and> r = \<lparr>howYouFelt = trim felt,
                 weeklySummary = orEmpty (getProp parsed ''weeklySummary''),
                 moodDrivers = arrayOrEmpty (getProp parsed ''moodDrivers''),
                 patterns = arrayOrEmpty (getProp parsed ''patterns''),
                 suggestions = arrayOrEmpty (getProp parsed ''suggestions''),
                 confidence = numberOrHalf (getProp parsed ''confidence'')\<rparr>)"
  by (auto simp: buildResponse_def split: option.splits)

lemma buildResponse_TypeError:
  "buildResponse fmt parsed = Inl TypeError \<longleftrightarrow>
     toString fmt (orEmpty (getProp parsed ''howYouFelt'')) = None"
  by (auto simp: buildResponse_def split: option.splits)

lemma parse_accepts:
  "parseOpenAIInsights parse fmt text = Inr r \<Longrightarrow>
     \<exists>parsed. extractJson parse text = Inr parsed \<and> buildResponse fmt parsed = Inr r"
  by (auto simp: parseOpenAIInsights_def split: sum.splits)

lemma truthy_iff:
  "truthy v \<longleftrightarrow> v \<noteq> JNull \<and> v \<noteq> JBool False \<and> v \<noteq> JNumber (Finite 0) \<and> v \<noteq> JString []"
  by (cases v) auto

lemma those_None: "None \<in> set ys \<Longrightarrow> those ys = None"
  by (induction ys) (auto split: option.splits)

lemma toString_array_throws:
  assumes "JObject kvs \<in> set xs" "map_of kvs ''toString'' = Some v"
  shows "toString fmt (JArray xs) = None"
proof -
  have "None \<in> set (map (\<lambda>x. if x = JNull then Some [] else toString fmt x) xs)"
    using assms by (force simp: image_iff)
  then show ?thesis by (simp add: those_None)
qed

lemma toString_array_of_strings:
  assumes "\<forall>x\<in>set xs. x = JNull \<or> (\<exists>s. x = JString s)"
  shows "toString fmt (JArray xs)
    = Some (intercalate '','' (map (\<lambda>x. case x of JString s \<Rightarrow> s | _ \<Rightarrow> []) xs))"
proof -
  have "those (map (\<lambda>x. if x = JNull then Some [] else toString fmt x) xs)
      = Some (map (\<lambda>x. case x of JString s \<Rightarrow> s | _ \<Rightarrow> []) xs)"
    using assms by (induction xs) auto
  then show ?thesis by simp
qed

lemma trim_words:
  "trim ''true'' = ''true''" "trim ''Infinity'' = ''Infinity''"
  "trim ''-Infinity'' = ''-Infinity''" "trim ''[object Object]'' = ''[object Object]''"
  by (simp_all add: trim_def isSpace_def)

text \<open>
  Claim C6: for every successfully parsed response, \<^verbatim>\<open>howYouFelt\<close> is the trimmed
  string value (the empty string if absent), \<^verbatim>\<open>weeklySummary\<close> defaults to the
  empty string, each of \<^verbatim>\<open>moodDrivers\<close>, \<^verbatim>\<open>patterns\<close> and \<^verbatim>\<open>suggestions\<close> is the
  parsed array when the parsed value is an array and the empty sequence
  otherwise (so also when it is missing), and \<^verbatim>\<open>confidence\<close> is the parsed value
  when it is a number and 0.5 otherwise (so also when it is missing).

  A response is successfully parsed when \<^verbatim>\<open>parseOpenAIInsights\<close> returns a result.
  When \<^verbatim>\<open>extractJson\<close> returns a value, it does so whenever \<^verbatim>\<open>howYouFelt\<close> is
  neither an object nor an array, and it throws a \<^verbatim>\<open>TypeError\<close> when \<^verbatim>\<open>howYouFelt\<close>
  is an object with a \<^verbatim>\<open>toString\<close> property of its own, or an array with such an
  object among its elements. The last clauses give \<^verbatim>\<open>howYouFelt\<close> and
  \<^verbatim>\<open>weeklySummary\<close> for the values of the other types: the default replaces
  \<^verbatim>\<open>null\<close>, \<^verbatim>\<open>false\<close>, 0 and the empty string as well, and every other value is
  converted as \<^verbatim>\<open>String\<close> converts it.
\<close>

theorem parse_defaults:
  assumes "extractJson parse text = Inr parsed"
  shows "((\<forall>kvs. getProp parsed ''howYouFelt'' \<noteq> Some (JObject kvs))
          \<and> (\<forall>xs. getProp parsed ''howYouFelt'' \<noteq> Some (JArray xs)) \<longrightarrow>
          (\<exists>r. parseOpenAIInsights parse fmt text = Inr r))
    \<and> (\<forall>kvs v. getProp parsed ''howYouFelt'' = Some (JObject kvs)
          \<and> map_of kvs ''toString'' = Some v \<longrightarrow>
          parseOpenAIInsights parse fmt text = Inl TypeError)
    \<and> (\<forall>xs kvs v. getProp parsed ''howYouFelt'' = Some (JArray xs)
          \<and> JObject kvs \<in> set xs \<and> map_of kvs ''toString'' = Some v \<longrightarrow>
          parseOpenAIInsights parse fmt text = Inl TypeError)
    \<and> (\<forall>r. parseOpenAIInsights parse fmt text = Inr r \<longrightarrow>
        (\<forall>s. getProp parsed ''howYouFelt'' = Some (JString s) \<longrightarrow> howYouFelt r = trim s)
        \<and> (getProp parsed ''howYouFelt'' = None \<longrightarrow> howYouFelt r = [])
        \<and> (\<forall>s. getProp parsed ''weeklySummary'' = Some (JString s) \<longrightarrow>
              weeklySummary r = JString s)
        \<and> (getProp parsed ''weeklySummary'' = None \<longrightarrow> weeklySummary r = JString [])
        \<and> (\<forall>xs. getProp parsed ''moodDrivers'' = Some (JArray xs) \<longrightarrow> moodDrivers r = xs)
        \<and> ((\<forall>xs. getProp parsed ''moodDrivers'' \<noteq> Some (JArray xs)) \<longrightarrow> moodDrivers r = [])
        \<and> (\<forall>xs. getProp parsed ''patterns'' = Some (JArray xs) \<longrightarrow> patterns r = xs)
        \<and> ((\<forall>xs. getProp parsed ''patterns'' \<noteq> Some (JArray xs)) \<longrightarrow> patterns r = [])
        \<and> (\<forall>xs. getProp parsed ''suggestions'' = Some (JArray xs) \<longrightarrow> suggestions r = xs)
        \<and> ((\<forall>xs. getProp parsed ''suggestions'' \<noteq> Some (JArray xs)) \<longrightarrow> suggestions r = [])
        \<and> (\<forall>n. getProp parsed ''confidence'' = Some (JNumber n) \<longrightarrow> confidence r = n)
        \<and> ((\<forall>n. getProp parsed ''confidence'' \<noteq> Some (JNumber n)) \<longrightarrow>
              confidence r = Finite (1 / 2))
        \<and> (getProp parsed ''howYouFelt'' = Some JNull
              \<or> getProp parsed ''howYouFelt'' = Some (JBool False)
              \<or> getProp parsed ''howYouFelt'' = Some (JNumber (Finite 0)) \<longrightarrow>
              howYouFelt r = [])
        \<and> (getProp parsed ''howYouFelt'' = Some (JBool True) \<longrightarrow> howYouFelt r = ''true'')
        \<and> (\<forall>q. q \<noteq> 0 \<and> getProp parsed ''howYouFelt'' = Some (JNumber (Finite q)) \<longrightarrow>
              howYouFelt r = trim (fmt q))
        \<and> (getProp parsed ''howYouFelt'' = Some (JNumber PosInfinity) \<longrightarrow>
              howYouFelt r = ''Infinity'')
        \<and> (getProp parsed ''howYouFelt'' = Some (JNumber NegInfinity) \<longrightarrow>
              howYouFelt r = ''-Infinity'')
        \<and> (\<forall>kvs. getProp parsed ''howYouFelt'' = Some (JObject kvs) \<longrightarrow>
              map_of kvs ''toString'' = None \<and> howYouFelt r = ''[object Object]'')
        \<and> (\<forall>xs. getProp parsed ''howYouFelt'' = Some (JArray xs)
              \<and> (\<forall>x\<in>set xs. x = JNull \<or> (\<exists>s. x = JString s)) \<longrightarrow>
              howYouFelt r
                = trim (intercalate '',''
                    (map (\<lambda>x. case x of JString s \<Rightarrow> s | _ \<Rightarrow> []) xs)))
        \<and> (\<forall>v. getProp parsed ''weeklySummary'' = Some v \<longrightarrow>
              weeklySummary r
                = (if v = JNull \<or> v = JBool False \<or> v = JNumber (Finite 0) \<or> v = JString []
                   then JString [] else v)))"
  (is "?returns \<and> ?throws \<and> ?throws' \<and> (\<forall>r. ?parsed r \<longrightarrow> ?fields r)")
proof (intro conjI)
  show ?returns
  proof
  assume a: "(\<forall>kvs. getProp parsed ''howYouFelt'' \<noteq> Some (JObject kvs))
          \<and> (\<forall>xs. getProp parsed ''howYouFelt'' \<noteq> Some (JArray xs))"
  have "toString fmt (orEmpty (getProp parsed ''howYouFelt'')) \<noteq> None"
  proof (cases "getProp parsed ''howYouFelt''")
    case None
    then show ?thesis by (simp add: orEmpty_def)
  next
    case (Some v)
    then show ?thesis using a by (cases v) (auto simp: orEmpty_def)
  qed
  then obtain felt where "toString fmt (orEmpty (getProp parsed ''howYouFelt'')) = Some felt"
    by blast
  then show "\<exists>r. parseOpenAIInsights parse fmt text = Inr r"
    using assms by (simp add: parseOpenAIInsights_def buildResponse_def)
  qed
next
  show ?throws
  proof (intro allI impI)
  fix kvs v
  assume "getProp parsed ''howYouFelt'' = Some (JObject kvs) \<and> map_of kvs ''toString'' = Some v"
  then have "toString fmt (orEmpty (getProp parsed ''howYouFelt'')) = None"
    by (simp add: orEmpty_def)
  then show "parseOpenAIInsights parse fmt text = Inl TypeError"
    using assms by (simp add: parseOpenAIInsights_def buildResponse_TypeError)
  qed
next
  show ?throws'
  proof (intro allI impI)
    fix xs kvs v
    assume a: "getProp parsed ''howYouFelt'' = Some (JArray xs)
      \<and> JObject kvs \<in> set xs \<and> map_of kvs ''toString'' = Some v"
    then have "JObject kvs \<in> set xs" "map_of kvs ''toString'' = Some v"
      by simp_all
    then have "toString fmt (JArray xs) = None"
      by (rule toString_array_throws)
    then have "toString fmt (orEmpty (getProp parsed ''howYouFelt'')) = None"
      using a by (simp add: orEmpty_def del: toString.simps)
    then show "parseOpenAIInsights parse fmt text = Inl TypeError"
      using assms by (simp add: parseOpenAIInsights_def buildResponse_TypeError)
  qed
next
  show "\<forall>r. ?parsed r \<longrightarrow> ?fields r"
  proof (intro allI impI)
  fix r
  assume "parseOpenAIInsights parse fmt text = Inr r"
  then have "buildResponse fmt parsed = Inr r"
    using assms by (simp add: parseOpenAIInsights_def)
  then obtain felt where felt: "toString fmt (orEmpty (getProp parsed ''howYouFelt'')) = Some felt"
    and r: "howYouFelt r = trim felt"
      "weeklySummary r = orEmpty (getProp parsed ''weeklySummary'')"
      "moodDrivers r = arrayOrEmpty (getProp parsed ''moodDrivers'')"
      "patterns r = arrayOrEmpty (getProp parsed ''patterns'')"
      "suggestions r = arrayOrEmpty (getProp parsed ''suggestions'')"
      "confidence r = numberOrHalf (getProp parsed ''confidence'')"
    by (auto simp: buildResponse_Inr)
  have arr: "(\<forall>xs. v = Some (JArray xs) \<longrightarrow> arrayOrEmpty v = xs)
      \<and> ((\<forall>xs. v \<noteq> Some (JArray xs)) \<longrightarrow> arrayOrEmpty v = [])" for v
    by (auto simp: arrayOrEmpty_def split: option.splits json.splits)
  have num: "(\<forall>n. v = Some (JNumber n) \<longrightarrow> numberOrHalf v = n)
      \<and> ((\<forall>n. v \<noteq> Some (JNumber n)) \<longrightarrow> numberOrHalf v = Finite (1 / 2))" for v
    by (auto simp: numberOrHalf_def split: option.splits json.splits)
  have summ: "(\<forall>s. v = Some (JString s) \<longrightarrow> orEmpty v = JString s)
      \<and> (v = None \<longrightarrow> orEmpty v = JString [])
      \<and> (\<forall>x. v = Some x \<longrightarrow>
            orEmpty v = (if x = JNull \<or> x = JBool False \<or> x = JNumber (Finite 0) \<or> x = JString []
                         then JString [] else x))" for v
    by (auto simp: orEmpty_def truthy_iff)
  note a = arr[of "getProp parsed ''moodDrivers''"] arr[of "getProp parsed ''patterns''"]
    arr[of "getProp parsed ''suggestions''"] num[of "getProp parsed ''confidence''"]
    summ[of "getProp parsed ''weeklySummary''"]
  show "?fields r"
  proof (intro conjI)
  show "\<forall>s. getProp parsed ''howYouFelt'' = Some (JString s) \<longrightarrow> howYouFelt r = trim s"
    using felt r(1) by (auto simp: orEmpty_def trim_Nil split: if_splits)
  show "getProp parsed ''howYouFelt'' = None \<longrightarrow> howYouFelt r = []"
    using felt r(1) by (auto simp: orEmpty_def trim_Nil)
  show "\<forall>s. getProp parsed ''weeklySummary'' = Some (JString s) \<longrightarrow> weeklySummary r = JString s"
    using a r(2) by simp
  show "getProp parsed ''weeklySummary'' = None \<longrightarrow> weeklySummary r = JString []"
    using a r(2) by simp
  show "\<forall>xs. getProp parsed ''moodDrivers'' = Some (JArray xs) \<longrightarrow> moodDrivers r = xs"
    using a r(3) by simp
  show "(\<forall>xs. getProp parsed ''moodDrivers'' \<noteq> Some (JArray xs)) \<longrightarrow> moodDrivers r = []"
    using a r(3) by simp
  show "\<forall>xs. getProp parsed ''patterns'' = Some (JArray xs) \<longrightarrow> patterns r = xs"
    using a r(4) by simp
  show "(\<forall>xs. getProp parsed ''patterns'' \<noteq> Some (JArray xs)) \<longrightarrow> patterns r = []"
    using a r(4) by simp
  show "\<forall>xs. getProp parsed ''suggestions'' = Some (JArray xs) \<longrightarrow> suggestions r = xs"
    using a r(5) by simp
  show "(\<forall>xs. getProp parsed ''suggestions'' \<noteq> Some (JArray xs)) \<longrightarrow> suggestions r = []"
    using a r(5) by simp
  show "\<forall>n. getProp parsed ''confidence'' = Some (JNumber n) \<longrightarrow> confidence r = n"
    using a r(6) by simp
  show "(\<forall>n. getProp parsed ''confidence'' \<noteq> Some (JNumber n)) \<longrightarrow>
          confidence r = Finite (1 / 2)"
    using a r(6) by simp
  show "getProp parsed ''howYouFelt'' = Some JNull
          \<or> getProp parsed ''howYouFelt'' = Some (JBool False)
          \<or> getProp parsed ''howYouFelt'' = Some (JNumber (Finite 0)) \<longrightarrow>
        howYouFelt r = []"
    using felt r(1) by (auto simp: orEmpty_def trim_Nil)
  show "getProp parsed ''howYouFelt'' = Some (JBool True) \<longrightarrow> howYouFelt r = ''true''"
    using felt r(1) by (auto simp: orEmpty_def trim_words)
  show "\<forall>q. q \<noteq> 0 \<and> getProp parsed ''howYouFelt'' = Some (JNumber (Finite q)) \<longrightarrow>
          howYouFelt r = trim (fmt q)"
    using felt r(1) by (auto simp: orEmpty_def)
  show "getProp parsed ''howYouFelt'' = Some (JNumber PosInfinity) \<longrightarrow>
          howYouFelt r = ''Infinity''"
    using felt r(1) by (auto simp: orEmpty_def trim_words)
  show "getProp parsed ''howYouFelt'' = Some (JNumber NegInfinity) \<longrightarrow>
          howYouFelt r = ''-Infinity''"
    using felt r(1) by (auto simp: orEmpty_def trim_words)
  show "\<forall>kvs. getProp parsed ''howYouFelt'' = Some (JObject kvs) \<longrightarrow>
          map_of kvs ''toString'' = None \<and> howYouFelt r = ''[object Object]''"
    using felt r(1) by (auto simp: orEmpty_def trim_words split: if_splits)
  show "\<forall>xs. getProp parsed ''howYouFelt'' = Some (JArray xs)
          \<and> (\<forall>x\<in>set xs. x = JNull \<or> (\<exists>s. x = JString s)) \<longrightarrow>
          howYouFelt r
            = trim (intercalate '',''
                (map (\<lambda>x. case x of JString s \<Rightarrow> s | _ \<Rightarrow> []) xs))"
  proof (intro allI impI)
    fix xs
    assume a: "getProp parsed ''howYouFelt'' = Some (JArray xs)
          \<and> (\<forall>x\<in>set xs. x = JNull \<or> (\<exists>s. x = JString s))"
    then have "\<forall>x\<in>set xs. x = JNull \<or> (\<exists>s. x = JString s)"
      by simp
    then have "toString fmt (JArray xs)
        = Some (intercalate '','' (map (\<lambda>x. case x of JString s \<Rightarrow> s | _ \<Rightarrow> []) xs))"
      by (rule toString_array_of_strings)
    then have "felt = intercalate '','' (map (\<lambda>x. case x of JString s \<Rightarrow> s | _ \<Rightarrow> []) xs)"
      using felt a by (simp add: orEmpty_def del: toString.simps)
    then show "howYouFelt r
        = trim (intercalate '','' (map (\<lambda>x. case x of JString s \<Rightarrow> s | _ \<Rightarrow> []) xs))"
      using r(1) by simp
  qed
  show "\<forall>v. getProp parsed ''weeklySummary'' = Some v \<longrightarrow>
          weeklySummary r
            = (if v = JNull \<or> v = JBool False \<or> v = JNumber (Finite 0) \<or> v = JString []
               then JString [] else v)"
    using a r(2) by simp
  qed
  qed
qed

lemma sparse_extract:
  "extractJson sampleParse sparseText = Inr (JObject [(''howYouFelt'', JString '' A calm week. '')])"
proof -
  have c: \<open>cleanText sparseText = ''{"howYouFelt": " A calm week. "}''\<close>
    by (simp add: text_eval sparseText_def)
  show ?thesis
    by (rule extractJson_direct) (simp add: c sampleParse_def paddedText_def overconfidentText_def)
qed

lemma shadowed_extract:
  \<open>extractJson sampleParse ''{"howYouFelt":{"toString":1}}''
     = Inr (JObject [(''howYouFelt'', JObject [(''toString'', JNumber (Finite 1))])])\<close>
proof -
  have c: \<open>cleanText ''{"howYouFelt":{"toString":1}}'' = ''{"howYouFelt":{"toString":1}}''\<close>
    by (rule cleanText_object_text) simp_all
  show ?thesis
    by (rule extractJson_direct) (simp add: c sampleParse_def paddedText_def overconfidentText_def)
qed

theorem parse_defaults_witness:
  \<open>parseOpenAIInsights sampleParse sampleFormat sparseText
     = Inr \<lparr>howYouFelt = ''A calm week.'', weeklySummary = JString [], moodDrivers = [],
            patterns = [], suggestions = [], confidence = Finite (1 / 2)\<rparr>
   \<and> parseOpenAIInsights sampleParse sampleFormat ''{"howYouFelt":{"toString":1}}''
     = Inl TypeError\<close>
proof -
  have t: "trim '' A calm week. '' = ''A calm week.''" by (simp add: trim_def isSpace_def)
  note d = parse_defaults[OF sparse_extract, of sampleFormat]
  obtain r where r: "parseOpenAIInsights sampleParse sampleFormat sparseText = Inr r"
    using d[THEN conjunct1] by auto
  have "howYouFelt r = ''A calm week.'' \<and> weeklySummary r = JString []
    \<and> moodDrivers r = [] \<and> patterns r = [] \<and> suggestions r = []
    \<and> confidence r = Finite (1 / 2)"
    using d[THEN conjunct2, THEN conjunct2, THEN conjunct2, rule_format, OF r]
    by (simp add: t)
  then have "r = \<lparr>howYouFelt = ''A calm week.'', weeklySummary = JString [], moodDrivers = [],
            patterns = [], suggestions = [], confidence = Finite (1 / 2)\<rparr>"
    by (cases r) simp
  moreover have \<open>parseOpenAIInsights sampleParse sampleFormat ''{"howYouFelt":{"toString":1}}''
      = Inl TypeError\<close>
    using parse_defaults[OF shadowed_extract, of sampleFormat, THEN conjunct2, THEN conjunct1]
    by simp
  ultimately show ?thesis
    using r by simp
qed

subsection \<open>The confidence\<close>

lemma overconfident_clean: "cleanText overconfidentText = overconfidentText"
  by (rule cleanText_object_text) (simp_all add: overconfidentText_def)

lemma overconfident_parse:
  "sampleParse overconfidentText = Inr (JObject [(''confidence'', JNumber (Finite 5))])"
  by (simp add: sampleParse_def overconfidentText_def paddedText_def)

text \<open>
  Claim C7, as the spec states it: the confidence of every accepted response
  is in the range from 0 to 1. The response \<^verbatim>\<open>{"confidence": 5}\<close> is accepted with
  confidence 5.
\<close>

theorem confidence_out_of_range_passes:
  "parseOpenAIInsights sampleParse sampleFormat overconfidentText
     = Inr \<lparr>howYouFelt = [], weeklySummary = JString [], moodDrivers = [], patterns = [],
            suggestions = [], confidence = Finite 5\<rparr>
   \<and> \<not> inUnitInterval (Finite 5)"
proof -
  have "extractJson sampleParse overconfidentText
          = Inr (JObject [(''confidence'', JNumber (Finite 5))])"
    by (rule extractJson_direct) (simp only: overconfident_clean overconfident_parse)
  then show ?thesis
    by (simp add: parseOpenAIInsights_def buildResponse_def orEmpty_def arrayOrEmpty_def
        numberOrHalf_def trim_Nil inUnitInterval_def)
qed

text \<open>
  Claim C7, amended: for every raw text that the response parser accepts, the
  confidence of the result is the parsed \<^verbatim>\<open>confidence\<close> unchanged when that is a
  number, and 0.5 otherwise; no clamping is applied, so the confidence is in
  the range from 0 to 1 exactly when the parsed value is not a number or is a
  number in that range.
\<close>

theorem confidence_parsed_or_half:
  assumes "parseOpenAIInsights parse fmt text = Inr r"
  shows "\<exists>parsed. extractJson parse text = Inr parsed
      \<and> (\<forall>n. getProp parsed ''confidence'' = Some (JNumber n) \<longrightarrow> confidence r = n)
      \<and> ((\<forall>n. getProp parsed ''confidence'' \<noteq> Some (JNumber n)) \<longrightarrow> confidence r = Finite (1 / 2))
      \<and> (inUnitInterval (confidence r) \<longleftrightarrow>
           (\<forall>n. getProp parsed ''confidence'' = Some (JNumber n) \<longrightarrow> inUnitInterval n))"
proof -
  obtain parsed where p: "extractJson parse text = Inr parsed" "buildResponse fmt parsed = Inr r"
    using parse_accepts[OF assms] by blast
  have c: "confidence r = numberOrHalf (getProp parsed ''confidence'')"
    using p(2) by (auto simp: buildResponse_Inr)
  have half: "inUnitInterval (Finite (1 / 2))" by (simp add: inUnitInterval_def)
  have "(\<forall>n. getProp parsed ''confidence'' = Some (JNumber n) \<longrightarrow> confidence r = n)
      \<and> ((\<forall>n. getProp parsed ''confidence'' \<noteq> Some (JNumber n)) \<longrightarrow> confidence r = Finite (1 / 2))
      \<and> (inUnitInterval (confidence r) \<longleftrightarrow>
           (\<forall>n. getProp parsed ''confidence'' = Some (JNumber n) \<longrightarrow> inUnitInterval n))"
    using half by (auto simp: c numberOrHalf_def split: option.splits json.splits)
  then show ?thesis using p(1) by blast
qed

lemma sparse_response:
  "parseOpenAIInsights sampleParse sampleFormat sparseText
     = Inr \<lparr>howYouFelt = ''A calm week.'', weeklySummary = JString [], moodDrivers = [],
            patterns = [], suggestions = [], confidence = Finite (1 / 2)\<rparr>"
  by (simp add: parseOpenAIInsights_def sparse_extract buildResponse_def orEmpty_def
      arrayOrEmpty_def numberOrHalf_def trim_def isSpace_def)

theorem confidence_parsed_or_half_witness:
  "\<exists>r. parseOpenAIInsights sampleParse sampleFormat sparseText = Inr r
     \<and> confidence r = Finite (1 / 2) \<and> inUnitInterval (confidence r)"
  using confidence_parsed_or_half[OF sparse_response] sparse_extract sparse_response by auto

subsection \<open>Serialising and parsing again\<close>

lemma map_of_field: "map_of (field key v) k = (if k = key then v else None)"
  by (cases v) (simp_all add: field_def)

lemma insightObject_howYouFelt:
  "getProp (insightObject h w ds ps ss c) ''howYouFelt'' = Some (JString h)"
  by (simp add: insightObject_def)

lemma insightObject_weeklySummary:
  "getProp (insightObject h w ds ps ss c) ''weeklySummary'' = map_option JString w"
  by (simp add: insightObject_def map_of_field map_add_def split: option.split)

lemma insightObject_moodDrivers:
  "getProp (insightObject h w ds ps ss c) ''moodDrivers''
     = map_option (\<lambda>xs. JArray (map JString xs)) ds"
  by (simp add: insightObject_def map_of_field map_add_def split: option.split)

lemma insightObject_patterns:
  "getProp (insightObject h w ds ps ss c) ''patterns''
     = map_option (\<lambda>xs. JArray (map JString xs)) ps"
  by (simp add: insightObject_def map_of_field map_add_def split: option.split)

lemma insightObject_suggestions:
  "getProp (insightObject h w ds ps ss c) ''suggestions''
     = map_option (\<lambda>xs. JArray (map JString xs)) ss"
  by (simp add: insightObject_def map_of_field map_add_def split: option.split)

lemma insightObject_confidence:
  "getProp (insightObject h w ds ps ss c) ''confidence''
     = map_option (\<lambda>q. JNumber (Finite q)) c"
  by (simp add: insightObject_def map_of_field map_add_def split: option.split)

lemma buildResponse_insightObject:
  "buildResponse fmt (insightObject h w ds ps ss c) = Inr (insightOf (trim h) w ds ps ss c)"
  unfolding buildResponse_def insightObject_howYouFelt insightObject_weeklySummary
    insightObject_moodDrivers insightObject_patterns insightObject_suggestions
    insightObject_confidence
  by (cases w; cases ds; cases ps; cases ss; cases c)
     (simp_all add: insightOf_def orEmpty_def arrayOrEmpty_def numberOrHalf_def trim_Nil)

lemma padded_parse:
  "sampleParse paddedText
     = Inr (insightObject '' ok'' (Some []) (Some []) (Some []) (Some []) (Some (1 / 2)))"
  by (simp add: sampleParse_def paddedText_def)

lemma padded_shape: "paddedText \<noteq> [] \<and> hd paddedText = CHR ''{'' \<and> last paddedText = CHR ''}''"
  by (simp add: paddedText_def)

lemma trim_ok: "trim '' ok'' = ''ok''"
  by (simp add: trim_def isSpace_def)

text \<open>
  Claim C5, as the spec states it: serialising a valid object and parsing it
  returns a structure equal to the original. The object whose \<^verbatim>\<open>howYouFelt\<close> is
  \<^verbatim>\<open>" ok"\<close>, with a leading space, comes back with \<^verbatim>\<open>howYouFelt\<close> \<^verbatim>\<open>"ok"\<close>.
\<close>

theorem roundtrip_loses_padding:
  "sampleParse paddedText
     = Inr (insightObject '' ok'' (Some []) (Some []) (Some []) (Some []) (Some (1 / 2)))
   \<and> parseOpenAIInsights sampleParse sampleFormat paddedText
     = Inr (insightOf ''ok'' (Some []) (Some []) (Some []) (Some []) (Some (1 / 2)))
   \<and> parseOpenAIInsights sampleParse sampleFormat paddedText
     \<noteq> Inr (insightOf '' ok'' (Some []) (Some []) (Some []) (Some []) (Some (1 / 2)))"
proof -
  have "cleanText paddedText = paddedText"
    using padded_shape by (intro cleanText_object_text) simp_all
  then have "extractJson sampleParse paddedText
     = Inr (insightObject '' ok'' (Some []) (Some []) (Some []) (Some []) (Some (1 / 2)))"
    using padded_parse by (simp add: extractJson_direct)
  then have "parseOpenAIInsights sampleParse sampleFormat paddedText
     = Inr (insightOf ''ok'' (Some []) (Some []) (Some []) (Some []) (Some (1 / 2)))"
    by (simp add: parseOpenAIInsights_def buildResponse_insightObject trim_ok)
  then show ?thesis using padded_parse by (simp add: insightOf_def)
qed

text \<open>
  Claim C5, amended: for every valid \<^verbatim>\<open>InsightResult\<close>-shaped JSON object,
  serialising it to text (a text from an opening to a closing brace that
  \<^verbatim>\<open>JSON.parse\<close> reads back as the object) and running it through the response
  parser returns the original structure with \<^verbatim>\<open>howYouFelt\<close> trimmed of leading and
  trailing white space, and with the defaults (empty text, empty sequences,
  confidence 0.5) applied only to the fields absent from the input.
\<close>

theorem roundtrip_trims_howYouFelt:
  assumes "parse text = Inr (insightObject h w ds ps ss c)"
    and "text \<noteq> []" and "hd text = CHR ''{''" and "last text = CHR ''}''"
  shows "parseOpenAIInsights parse fmt text = Inr (insightOf (trim h) w ds ps ss c)"
proof -
  have "cleanText text = text" using assms(2-4) by (rule cleanText_object_text)
  then have "extractJson parse text = Inr (insightObject h w ds ps ss c)"
    using assms(1) by (simp add: extractJson_direct)
  then show ?thesis by (simp add: parseOpenAIInsights_def buildResponse_insightObject)
qed

theorem roundtrip_trims_howYouFelt_witness:
  "parseOpenAIInsights sampleParse sampleFormat paddedText
     = Inr (insightOf (trim '' ok'') (Some []) (Some []) (Some []) (Some []) (Some (1 / 2)))"
  using roundtrip_trims_howYouFelt[of sampleParse paddedText "'' ok''" "Some []" "Some []"
      "Some []" "Some []" "Some (1 / 2)" sampleFormat]
    padded_parse padded_shape
  by simp

section \<open>Counting records\<close>

lemma lookupCount_increment:
  "lookupCount k (increment k' kvs) = lookupCount k kvs + (if k = k' then 1 else 0)"
  by (induction kvs) (auto simp: lookupCount_def)

lemma keys_increment:
  "map fst (increment k kvs)
     = (if k \<in> fst ` set kvs then map fst kvs else map fst kvs @ [k])"
  by (induction kvs) force+

lemma set_keys_increment: "fst ` set (increment k kvs) = insert k (fst ` set kvs)"
proof -
  have "set (map fst (increment k kvs)) = insert k (set (map fst kvs))"
    by (simp only: keys_increment) auto
  then show ?thesis by simp
qed

lemma lookupCount_Nil: "lookupCount k [] = 0"
  by (simp add: lookupCount_def)

lemma lookupCount_fold_increment:
  "lookupCount k (fold increment ks kvs) = lookupCount k kvs + count_list ks k"
  by (induction ks arbitrary: kvs) (auto simp: lookupCount_increment)

lemma set_firsts: "set (firsts ks) = set ks"
  by (induction ks) auto

lemma distinct_firsts: "distinct (firsts ks)"
  by (induction ks) (auto simp: distinct_removeAll)

lemma keys_fold_increment:
  "map fst (fold increment ks kvs)
     = map fst kvs @ filter (\<lambda>k. k \<notin> fst ` set kvs) (firsts ks)"
proof (induction ks arbitrary: kvs)
  case Nil
  then show ?case by simp
next
  case (Cons k ks)
  note keys = set_keys_increment[of k kvs]
  show ?case
  proof (cases "k \<in> fst ` set kvs")
    case True
    have "filter (\<lambda>x. x \<notin> fst ` set kvs) (removeAll k (firsts ks))
            = filter (\<lambda>x. x \<notin> fst ` set kvs) (firsts ks)"
      using True by (auto simp: removeAll_filter_not_eq intro: filter_cong)
    then show ?thesis using True Cons.IH[of "increment k kvs"] keys
      by (simp add: keys_increment insert_absorb)
  next
    case False
    have "filter (\<lambda>x. x \<notin> insert k (fst ` set kvs)) (firsts ks)
            = filter (\<lambda>x. x \<notin> fst ` set kvs) (removeAll k (firsts ks))"
      by (auto simp: removeAll_filter_not_eq intro: filter_cong)
    then show ?thesis using False Cons.IH[of "increment k kvs"] keys
      by (simp add: keys_increment)
  qed
qed

lemma fold_increment_eq:
  "fold increment ks [] = map (\<lambda>k. (k, count_list ks k)) (firsts ks)"
proof -
  define xs where "xs = fold increment ks []"
  have keys: "map fst xs = firsts ks" by (simp add: xs_def keys_fold_increment)
  then have d: "distinct (map fst xs)" by (simp add: distinct_firsts)
  have "snd p = count_list ks (fst p)" if "p \<in> set xs" for p
  proof -
    have "map_of xs (fst p) = Some (snd p)" using that d by simp
    then have "lookupCount (fst p) xs = snd p" by (simp add: lookupCount_def)
    moreover have "lookupCount (fst p) xs = count_list ks (fst p)"
      by (simp add: xs_def lookupCount_fold_increment lookupCount_Nil)
    ultimately show ?thesis by simp
  qed
  then have "map (\<lambda>p. (fst p, count_list ks (fst p))) xs = map (\<lambda>p. p) xs"
    by (intro map_cong) (auto simp: prod_eq_iff)
  then have "xs = map (\<lambda>k. (k, count_list ks k)) (map fst xs)" by (simp add: comp_def)
  then have "xs = map (\<lambda>k. (k, count_list ks k)) (firsts ks)" by (simp only: keys)
  then show ?thesis by (simp only: xs_def)
qed

lemma sort_key_head:
  assumes "xs \<noteq> []"
  shows "\<exists>x rest. sort_key f xs = x # rest \<and> x \<in> set xs \<and> (\<forall>y\<in>set xs. f x \<le> f y)
           \<and> hd (filter (\<lambda>y. f y = f x) xs) = x"
proof -
  have "length (sort_key f xs) = length xs" by simp
  then have "sort_key f xs \<noteq> []" using assms by (cases "sort_key f xs") auto
  then obtain x rest where s: "sort_key f xs = x # rest" by (cases "sort_key f xs") auto
  have "sorted (map f (x # rest))" using sorted_sort_key[of f xs] by (simp only: s)
  then have le: "\<forall>y\<in>set (x # rest). f x \<le> f y" by auto
  have in_xs: "set (x # rest) = set xs" using set_sort[of f xs] by (simp only: s)
  have "filter (\<lambda>y. f y = f x) (x # rest) = filter (\<lambda>y. f y = f x) xs"
    using sort_key_stable[of f "f x" xs] by (simp only: s)
  then have "filter (\<lambda>y. f y = f x) xs = x # filter (\<lambda>y. f y = f x) rest" by simp
  then have "hd (filter (\<lambda>y. f y = f x) xs) = x" by simp
  then show ?thesis using s le in_xs by auto
qed

lemma sortByCountDesc_head:
  assumes "kvs \<noteq> []"
  shows "\<exists>p rest. sortByCountDesc kvs = p # rest \<and> p \<in> set kvs \<and> (\<forall>q\<in>set kvs. snd q \<le> snd p)
           \<and> hd (filter (\<lambda>q. snd q = snd p) kvs) = p"
  using sort_key_head[OF assms, of "\<lambda>p. - int (snd p)"] by (simp add: sortByCountDesc_def)

lemma takeWhile_removeAll:
  "P x \<Longrightarrow> takeWhile P (removeAll x ys) = removeAll x (takeWhile P ys)"
  by (induction ys) auto

lemma takeWhile_firsts:
  "takeWhile (\<lambda>x. x \<noteq> k) (firsts ks) = firsts (takeWhile (\<lambda>x. x \<noteq> k) ks)"
  by (induction ks) (auto simp: takeWhile_removeAll)

text \<open>
  The head of the sorted counts of a sequence of keys: a key of greatest count,
  and the first of them to occur in the sequence.
\<close>

lemma first_greatest_count:
  assumes "sortByCountDesc (fold increment ks []) = p # rest"
  shows "fst p \<in> set ks" and "snd p = count_list ks (fst p)"
    and "count_list ks k' \<le> count_list ks (fst p)"
    and "k' \<noteq> fst p \<Longrightarrow> count_list ks k' = count_list ks (fst p)
           \<Longrightarrow> k' \<notin> set (takeWhile (\<lambda>x. x \<noteq> fst p) ks)"
proof -
  define g where "g = (\<lambda>k. (k, count_list ks k))"
  define kvs where "kvs = fold increment ks []"
  have kvs: "kvs = map g (firsts ks)" by (simp add: kvs_def g_def fold_increment_eq)
  have "length (sortByCountDesc kvs) = length kvs" by (simp add: sortByCountDesc_def)
  then have ne: "kvs \<noteq> []" using assms by (auto simp: kvs_def)
  obtain p' rest' where h: "sortByCountDesc kvs = p' # rest'" "p' \<in> set kvs"
    "\<forall>q\<in>set kvs. snd q \<le> snd p'" "hd (filter (\<lambda>q. snd q = snd p') kvs) = p'"
    using sortByCountDesc_head[OF ne] by blast
  have pp: "p' = p" using h(1) assms by (simp add: kvs_def)
  obtain k where k: "k \<in> set ks" "p = g k" using h(2) pp by (auto simp: kvs set_firsts)
  show "fst p \<in> set ks" using k by (simp add: g_def)
  show sp: "snd p = count_list ks (fst p)" using k by (simp add: g_def)
  show "count_list ks k' \<le> count_list ks (fst p)"
  proof (cases "k' \<in> set ks")
    case True
    then have "g k' \<in> set kvs" by (simp add: kvs set_firsts)
    then have "snd (g k') \<le> snd p" using h(3) pp by blast
    then show ?thesis by (simp add: g_def sp)
  next
    case False
    then show ?thesis by (simp add: count_list_0_iff)
  qed
  show "k' \<notin> set (takeWhile (\<lambda>x. x \<noteq> fst p) ks)"
    if ne': "k' \<noteq> fst p" and eq: "count_list ks k' = count_list ks (fst p)"
  proof
    assume "k' \<in> set (takeWhile (\<lambda>x. x \<noteq> fst p) ks)"
    then have "k' \<in> set (firsts (takeWhile (\<lambda>x. x \<noteq> fst p) ks))" by (simp add: set_firsts)
    then have mem: "k' \<in> set (takeWhile (\<lambda>x. x \<noteq> fst p) (firsts ks))"
      by (simp add: takeWhile_firsts)
    define A where "A = map g (takeWhile (\<lambda>x. x \<noteq> fst p) (firsts ks))"
    define B where "B = map g (dropWhile (\<lambda>x. x \<noteq> fst p) (firsts ks))"
    have split: "kvs = A @ B"
      unfolding kvs A_def B_def by (simp flip: map_append)
    have "g k' \<in> set A" using mem by (simp add: A_def)
    moreover have "snd (g k') = snd p" using eq sp by (simp add: g_def)
    ultimately have fne: "filter (\<lambda>q. snd q = snd p) A \<noteq> []"
      by (auto simp: filter_empty_conv)
    have "hd (filter (\<lambda>q. snd q = snd p) kvs) = hd (filter (\<lambda>q. snd q = snd p) A)"
      using fne by (simp add: split)
    moreover have "hd (filter (\<lambda>q. snd q = snd p) A) \<in> set (filter (\<lambda>q. snd q = snd p) A)"
      using fne by (rule hd_in_set)
    ultimately have "hd (filter (\<lambda>q. snd q = snd p) kvs) \<in> set A" by simp
    then have "p \<in> set A" using h(4) pp by simp
    then have "fst p \<in> set (takeWhile (\<lambda>x. x \<noteq> fst p) (firsts ks))"
      by (auto simp: A_def g_def)
    then show False using set_takeWhileD by fastforce
  qed
qed

section \<open>Mood counts and the dominant mood\<close>

lemma getMoodCounts_fold_from:
  "fold (\<lambda>entry counts. case mood entry of Some m \<Rightarrow> increment m counts | None \<Rightarrow> counts)
        entries acc
     = fold increment (moodsOf entries) acc"
  by (induction entries arbitrary: acc) (auto simp: moodsOf_def split: option.splits)

lemma getMoodCounts_fold: "getMoodCounts entries = fold increment (moodsOf entries) []"
  by (simp add: getMoodCounts_def getMoodCounts_fold_from)

lemma count_moodsOf: "count_list (moodsOf entries) m = moodCount m entries"
  by (induction entries) (auto simp: moodsOf_def moodCount_def split: option.splits)

lemma length_moodsOf: "length (moodsOf entries) = length (filter (\<lambda>e. mood e \<noteq> None) entries)"
  by (induction entries) (auto simp: moodsOf_def split: option.splits)

lemma moodsOf_Nil_iff: "moodsOf entries = [] \<longleftrightarrow> (\<forall>e\<in>set entries. mood e = None)"
  by (induction entries) (auto simp: moodsOf_def split: option.splits)

lemma set_moodsOf: "m \<in> set (moodsOf entries) \<longleftrightarrow> (\<exists>e\<in>set entries. mood e = Some m)"
  by (induction entries) (auto simp: moodsOf_def split: option.splits)

lemma moodsOf_takeWhile:
  "moodsOf (takeWhile (\<lambda>e. mood e \<noteq> Some m) entries) = takeWhile (\<lambda>x. x \<noteq> m) (moodsOf entries)"
  by (induction entries) (auto simp: moodsOf_def split: option.splits)

lemma moodsOf_redate: "moodsOf (redate f entries) = moodsOf entries"
  by (simp add: moodsOf_def redate_def comp_def)

lemma fold_add_sum_list: "fold (\<lambda>b a. a + b) xs (n::nat) = n + sum_list xs"
  by (induction xs arbitrary: n) auto

lemma sum_counts_firsts: "sum_list (map (count_list ks) (firsts ks)) = length ks"
proof -
  have "sum_list (map (count_list ks) (firsts ks)) = sum (count_list ks) (set (firsts ks))"
    by (rule sum_list_distinct_conv_sum_set) (rule distinct_firsts)
  also have "\<dots> = length ks" by (simp add: set_firsts sum_count_set)
  finally show ?thesis .
qed

lemma totalWithMood_eq: "totalWithMood entries = length (filter (\<lambda>e. mood e \<noteq> None) entries)"
  by (simp add: totalWithMood_def getMoodCounts_fold fold_increment_eq fold_add_sum_list comp_def
      sum_counts_firsts length_moodsOf)

lemma getMoodCounts_redate: "getMoodCounts (redate f entries) = getMoodCounts entries"
  by (simp add: getMoodCounts_fold moodsOf_redate)

lemma dominantMood_None_iff: "dominantMood entries = None \<longleftrightarrow> (\<forall>e\<in>set entries. mood e = None)"
proof -
  have "length (sortByCountDesc (getMoodCounts entries)) = length (firsts (moodsOf entries))"
    by (simp add: sortByCountDesc_def getMoodCounts_fold fold_increment_eq)
  then have "sortByCountDesc (getMoodCounts entries) = [] \<longleftrightarrow> firsts (moodsOf entries) = []"
    by (metis length_0_conv)
  moreover have "firsts (moodsOf entries) = [] \<longleftrightarrow> moodsOf entries = []"
    by (cases "moodsOf entries") simp_all
  moreover have "dominantMood entries = None \<longleftrightarrow> sortByCountDesc (getMoodCounts entries) = []"
    by (simp add: dominantMood_def split: list.splits)
  ultimately show ?thesis by (simp add: moodsOf_Nil_iff)
qed

lemma dominantMood_Some:
  assumes "dominantMood entries = Some m"
  shows "moodCount m' entries \<le> moodCount m entries"
    and "m' \<noteq> m \<Longrightarrow> moodCount m' entries = moodCount m entries
           \<Longrightarrow> \<forall>e\<in>set (takeWhile (\<lambda>e. mood e \<noteq> Some m) entries). mood e \<noteq> Some m'"
proof -
  obtain p rest where s: "sortByCountDesc (fold increment (moodsOf entries) []) = p # rest"
    and m: "fst p = m"
    using assms by (auto simp: dominantMood_def getMoodCounts_fold split: list.splits)
  show "moodCount m' entries \<le> moodCount m entries"
    using first_greatest_count(3)[OF s, of m'] by (simp add: m count_moodsOf)
  show "\<forall>e\<in>set (takeWhile (\<lambda>e. mood e \<noteq> Some m) entries). mood e \<noteq> Some m'"
    if "m' \<noteq> m" "moodCount m' entries = moodCount m entries"
  proof -
    have "m' \<notin> set (takeWhile (\<lambda>x. x \<noteq> m) (moodsOf entries))"
      using first_greatest_count(4)[OF s, of m'] that by (simp add: m count_moodsOf)
    then have "m' \<notin> set (moodsOf (takeWhile (\<lambda>e. mood e \<noteq> Some m) entries))"
      by (simp add: moodsOf_takeWhile)
    then show ?thesis by (simp add: set_moodsOf)
  qed
qed

lemma oldEntry_counts: "getMoodCounts [oldEntry] = [(Joy, 1)]"
  by (simp add: getMoodCounts_def oldEntry_def)

lemma tied_dominant: "dominantMood tiedMoods = Some Sad"
  by (simp add: dominantMood_def getMoodCounts_def tiedMoods_def sortByCountDesc_def)

text \<open>
  Claim C1, as the spec states it: entries outside the current 7-day window
  contribute nothing to the mood counts, the dominant mood and the percentages.
  \<^verbatim>\<open>getMoodCounts\<close> runs over all entries: a single entry of thirty days ago is
  outside the window and is counted, is the dominant mood and has 100 percent.
\<close>

theorem mood_counts_include_old_entries:
  "date oldEntry < utcDaysBefore 7 0
   \<and> weekEntries utcDaysBefore (frozenClock 0) [oldEntry] = []
   \<and> getMoodCounts [oldEntry] = [(Joy, 1)]
   \<and> dominantMood [oldEntry] = Some Joy
   \<and> moodPercentages [oldEntry] = [(Joy, 100)]"
proof -
  have t: "totalWithMood [oldEntry] = 1" by (simp add: totalWithMood_def oldEntry_counts)
  have "percentage [oldEntry] 1 = 100"
    by (simp add: percentage_def t fdiv_def fmul_def fl_one fl_hundred mathRound_def
        floor_rat_numeral_div)
  then show ?thesis
    by (simp add: moodPercentages_def dominantMood_def oldEntry_counts sortByCountDesc_def
        utc_eval) (simp add: oldEntry_def)
qed

text \<open>
  Claim C1, amended: for every entry collection, the per-mood counts, the
  dominant mood and the mood-distribution percentages are computed from all
  the entries of the collection that have a mood, whatever their dates
  (replacing the dates changes none of them): the count of a mood is the number
  of entries of the collection with that mood, the total is the number of
  entries with a mood, the dominant mood is a mood with the highest count over
  the whole collection (none when no entry has a mood), and ties are broken in
  favor of the mood first encountered in the collection.
\<close>

theorem mood_counts_over_whole_collection:
  "(\<forall>m. lookupCount m (getMoodCounts entries) = moodCount m entries)
   \<and> totalWithMood entries = length (filter (\<lambda>e. mood e \<noteq> None) entries)
   \<and> getMoodCounts (redate f entries) = getMoodCounts entries
   \<and> dominantMood (redate f entries) = dominantMood entries
   \<and> moodPercentages (redate f entries) = moodPercentages entries
   \<and> (dominantMood entries = None \<longleftrightarrow> (\<forall>e\<in>set entries. mood e = None))
   \<and> (\<forall>m. dominantMood entries = Some m \<longrightarrow>
         (\<forall>m'. moodCount m' entries \<le> moodCount m entries)
         \<and> (\<forall>m'. m' \<noteq> m \<and> moodCount m' entries = moodCount m entries \<longrightarrow>
               (\<forall>e\<in>set (takeWhile (\<lambda>e. mood e \<noteq> Some m) entries). mood e \<noteq> Some m')))"
proof -
  have counts: "\<forall>m. lookupCount m (getMoodCounts entries) = moodCount m entries"
    by (simp add: getMoodCounts_fold lookupCount_fold_increment lookupCount_Nil count_moodsOf)
  have dom: "dominantMood (redate f entries) = dominantMood entries"
    by (simp add: dominantMood_def getMoodCounts_redate)
  have tot: "totalWithMood (redate f entries) = totalWithMood entries"
    by (simp add: totalWithMood_def getMoodCounts_redate)
  have "percentage (redate f entries) c = percentage entries c" for c
    by (simp add: percentage_def tot)
  then have pct: "moodPercentages (redate f entries) = moodPercentages entries"
    by (simp add: moodPercentages_def getMoodCounts_redate)
  show ?thesis
    using counts dom pct totalWithMood_eq[of entries] getMoodCounts_redate[of f entries]
      dominantMood_None_iff[of entries] dominantMood_Some[of entries]
    by blast
qed

theorem mood_counts_over_whole_collection_witness:
  "dominantMood tiedMoods = Some Sad
   \<and> lookupCount Sad (getMoodCounts tiedMoods) = 2
   \<and> lookupCount Joy (getMoodCounts tiedMoods) = 2
   \<and> moodCount Joy tiedMoods \<le> moodCount Sad tiedMoods
   \<and> weekEntries utcDaysBefore (frozenClock 0) tiedMoods
       = [tiedMoods ! 1, tiedMoods ! 2, tiedMoods ! 4]"
  using mood_counts_over_whole_collection[of tiedMoods date] tied_dominant
  by (simp add: moodCount_def tiedMoods_def utc_eval)

section \<open>Theme counts\<close>

lemma scanKeywords_fold:
  "scanKeywords contentLower theme keywords tc
     = fold increment (replicate (length (filter (str_includes contentLower) keywords)) theme) tc"
  unfolding scanKeywords_def
  by (induction "keywords" arbitrary: tc) (auto simp: funpow_swap1)

lemma scanThemes_fold:
  "fold (\<lambda>(theme, keywords) tc. scanKeywords contentLower theme keywords tc) tks tc
     = fold increment
         (concat (map (\<lambda>(theme, keywords).
                         replicate (length (filter (str_includes contentLower) keywords)) theme)
                      tks)) tc"
  by (induction tks arbitrary: tc) (auto simp: scanKeywords_fold)

lemma scanEntry_fold: "scanEntry entry tc = fold increment (themeHits entry) tc"
  by (simp add: scanEntry_def themeHits_def keywordHits_def scanThemes_fold)

lemma themeCounts_fold_from:
  "fold scanEntry entries tc = fold increment (concat (map themeHits entries)) tc"
  by (induction entries arbitrary: tc) (auto simp: scanEntry_fold)

lemma themeCounts_fold: "themeCounts entries = fold increment (concat (map themeHits entries)) []"
  by (simp add: themeCounts_def themeCounts_fold_from)

lemma count_list_replicate: "count_list (replicate n x) y = (if x = y then n else 0)"
  by (induction n) auto

lemma count_list_concat: "count_list (concat xss) y = sum_list (map (\<lambda>xs. count_list xs y) xss)"
  by (induction xss) auto

lemma count_hits_absent:
  "theme \<notin> fst ` set tks \<Longrightarrow>
     count_list (concat (map (\<lambda>(t, k). replicate (h k) t) tks)) theme = 0"
  by (induction tks) (auto simp: count_list_replicate)

lemma count_hits:
  "distinct (map fst tks) \<Longrightarrow> (theme, keywords) \<in> set tks \<Longrightarrow>
     count_list (concat (map (\<lambda>(t, k). replicate (h k) t) tks)) theme = h keywords"
proof (induction tks)
  case Nil
  then show ?case by simp
next
  case (Cons tk tks)
  obtain t k where tk: "tk = (t, k)" by (cases tk)
  show ?case
  proof (cases "(theme, keywords) = tk")
    case True
    then have "theme \<notin> fst ` set tks" using Cons.prems(1) tk by auto
    then show ?thesis using True tk by (simp add: count_list_replicate count_hits_absent)
  next
    case False
    then have mem: "(theme, keywords) \<in> set tks" using Cons.prems(2) by simp
    then have "theme \<in> fst ` set tks" by force
    then have "t \<noteq> theme" using Cons.prems(1) tk by auto
    then show ?thesis using Cons.IH mem Cons.prems(1) tk by (simp add: count_list_replicate)
  qed
qed

lemma distinct_themes: "distinct (map fst themeKeywords)"
  by (simp add: themeKeywords_def)

lemma count_themeHits:
  "(theme, keywords) \<in> set themeKeywords \<Longrightarrow>
     count_list (themeHits entry) theme = keywordHits keywords entry"
  unfolding themeHits_def
  using count_hits[OF distinct_themes, of theme "keywords" "\<lambda>k. keywordHits k entry"] by simp

lemma scanEntry_lookup:
  "(theme, keywords) \<in> set themeKeywords \<Longrightarrow>
     lookupCount theme (scanEntry entry tc) = lookupCount theme tc + keywordHits keywords entry"
  by (simp add: scanEntry_fold lookupCount_fold_increment count_themeHits)

lemma themeCounts_lookup:
  "(theme, keywords) \<in> set themeKeywords \<Longrightarrow>
     lookupCount theme (themeCounts entries) = sum_list (map (keywordHits keywords) entries)"
  by (simp add: themeCounts_fold lookupCount_fold_increment lookupCount_Nil count_list_concat
      comp_def count_themeHits)

lemma themeCounts_snoc: "themeCounts (entries @ [entry]) = scanEntry entry (themeCounts entries)"
  by (simp add: themeCounts_def)

lemma mindfulness_declared: "(''Mindfulness'', mindfulnessKeywords) \<in> set themeKeywords"
  by (simp add: themeKeywords_def mindfulnessKeywords_def)

lemmas lower_eval = toLowerCase_def toLowerChar_def char_of_def bit_Suc_0_iff

lemma peaceful_hits: "keywordHits mindfulnessKeywords peacefulEntry = 3"
  by (simp add: keywordHits_def mindfulnessKeywords_def peacefulEntry_def lower_eval)

lemma still_hits: "keywordHits mindfulnessKeywords stillEntry = 2"
  by (simp add: keywordHits_def mindfulnessKeywords_def stillEntry_def lower_eval)

text \<open>
  Claim C4, as the spec states it: a single entry whose lower-cased text
  contains both \<^verbatim>\<open>meditation\<close> and \<^verbatim>\<open>calm\<close> increases the \<^verbatim>\<open>Mindfulness\<close> count
  by exactly 2. An entry that also contains \<^verbatim>\<open>peace\<close> increases it by 3.
\<close>

theorem third_keyword_counts_too:
  "str_includes (toLowerCase (content peacefulEntry)) ''meditation''
   \<and> str_includes (toLowerCase (content peacefulEntry)) ''calm''
   \<and> lookupCount ''Mindfulness'' (themeCounts []) = 0
   \<and> lookupCount ''Mindfulness'' (themeCounts [peacefulEntry]) = 3"
proof -
  have "lookupCount ''Mindfulness'' (themeCounts [peacefulEntry]) = 3"
    using themeCounts_lookup[OF mindfulness_declared, of "[peacefulEntry]"]
    by (simp add: peaceful_hits)
  moreover have "lookupCount ''Mindfulness'' (themeCounts []) = 0"
    by (simp add: themeCounts_def lookupCount_Nil)
  moreover have "str_includes (toLowerCase (content peacefulEntry)) ''meditation''"
    by (simp add: peacefulEntry_def lower_eval)
  moreover have "str_includes (toLowerCase (content peacefulEntry)) ''calm''"
    by (simp add: peacefulEntry_def lower_eval)
  ultimately show ?thesis by simp
qed

text \<open>
  Claim C4, amended: theme counts are incremented once per keyword match, not
  once per entry: for every entry and every theme, each keyword of that theme
  that occurs as a substring of the lower-cased entry text adds exactly 1 to
  the theme's count, so an entry increases the count of a theme by the number
  of the theme's keywords that occur in it, and the count over a collection is
  the sum over its entries. A single entry whose lower-cased text contains both
  \<^verbatim>\<open>meditation\<close> and \<^verbatim>\<open>calm\<close> increases the \<^verbatim>\<open>Mindfulness\<close> count by at least 2,
  and by exactly 2 when no other \<^verbatim>\<open>Mindfulness\<close> keyword occurs in it.
\<close>

theorem theme_count_per_keyword_match:
  "(\<forall>theme keywords. (theme, keywords) \<in> set themeKeywords \<longrightarrow>
       lookupCount theme (scanEntry entry tc) = lookupCount theme tc + keywordHits keywords entry
       \<and> lookupCount theme (themeCounts entries) = sum_list (map (keywordHits keywords) entries))
   \<and> themeCounts (entries @ [entry]) = scanEntry entry (themeCounts entries)
   \<and> (str_includes (toLowerCase (content entry)) ''meditation''
        \<and> str_includes (toLowerCase (content entry)) ''calm'' \<longrightarrow>
        lookupCount ''Mindfulness'' tc + 2 \<le> lookupCount ''Mindfulness'' (scanEntry entry tc)
        \<and> (\<not> str_includes (toLowerCase (content entry)) ''mindful''
             \<and> \<not> str_includes (toLowerCase (content entry)) ''grateful''
             \<and> \<not> str_includes (toLowerCase (content entry)) ''reflect''
             \<and> \<not> str_includes (toLowerCase (content entry)) ''peace''
             \<and> \<not> str_includes (toLowerCase (content entry)) ''present'' \<longrightarrow>
             lookupCount ''Mindfulness'' (scanEntry entry tc)
               = lookupCount ''Mindfulness'' tc + 2))"
proof -
  have ex: "lookupCount ''Mindfulness'' (scanEntry entry tc)
      = lookupCount ''Mindfulness'' tc + keywordHits mindfulnessKeywords entry"
    by (rule scanEntry_lookup[OF mindfulness_declared])
  have two: "2 \<le> keywordHits mindfulnessKeywords entry"
    if "str_includes (toLowerCase (content entry)) ''meditation''"
       "str_includes (toLowerCase (content entry)) ''calm''"
    using that by (simp add: keywordHits_def mindfulnessKeywords_def)
  have only: "keywordHits mindfulnessKeywords entry = 2"
    if "str_includes (toLowerCase (content entry)) ''meditation''"
       "str_includes (toLowerCase (content entry)) ''calm''"
       "\<not> str_includes (toLowerCase (content entry)) ''mindful''"
       "\<not> str_includes (toLowerCase (content entry)) ''grateful''"
       "\<not> str_includes (toLowerCase (content entry)) ''reflect''"
       "\<not> str_includes (toLowerCase (content entry)) ''peace''"
       "\<not> str_includes (toLowerCase (content entry)) ''present''"
    using that by (simp add: keywordHits_def mindfulnessKeywords_def)
  show ?thesis
    using scanEntry_lookup[of _ _ entry tc] themeCounts_lookup[of _ _ entries]
      themeCounts_snoc[of entries entry] two only
    by (simp add: ex)
qed

theorem theme_count_per_keyword_match_witness:
  "(''Mindfulness'', mindfulnessKeywords) \<in> set themeKeywords
   \<and> str_includes (toLowerCase (content stillEntry)) ''meditation''
   \<and> str_includes (toLowerCase (content stillEntry)) ''calm''
   \<and> lookupCount ''Mindfulness'' (themeCounts [stillEntry]) = 2
   \<and> lookupCount ''Mindfulness'' (scanEntry stillEntry [(''Mindfulness'', 5)]) = 7"
proof -
  have a: "str_includes (toLowerCase (content stillEntry)) ''meditation''"
    by (simp add: stillEntry_def lower_eval)
  have b: "str_includes (toLowerCase (content stillEntry)) ''calm''"
    by (simp add: stillEntry_def lower_eval)
  show ?thesis
    using theme_count_per_keyword_match[of stillEntry "[(''Mindfulness'', 5)]" "[stillEntry]"]
      mindfulness_declared a b
    by (simp add: still_hits lookupCount_def)
qed

section \<open>The top themes\<close>

lemma sorted_desc_sortByCountDesc: "sorted_wrt (\<lambda>p q. snd q \<le> snd p) (sortByCountDesc kvs)"
proof -
  have "sorted (map (\<lambda>p. - int (snd p)) (sortByCountDesc kvs))"
    unfolding sortByCountDesc_def by (rule sorted_sort_key)
  then show ?thesis by (simp add: sorted_map)
qed

lemma sortByCountDesc_stable:
  "filter (\<lambda>p. snd p = c) (sortByCountDesc kvs) = filter (\<lambda>p. snd p = c) kvs"
  using sort_key_stable[of "\<lambda>p. - int (snd p)" "- int c" kvs]
  by (simp add: sortByCountDesc_def)

text \<open>
  Claim C9, as the spec states it: themes with equal counts appear in the order
  in which the dictionary declares them. \<^verbatim>\<open>Work\<close> is declared first and \<^verbatim>\<open>Books\<close>
  last; when the first entry matches \<^verbatim>\<open>Books\<close> and the second \<^verbatim>\<open>Work\<close>, both once,
  \<^verbatim>\<open>Books\<close> comes first.
\<close>

theorem equal_themes_in_first_match_order:
  "extractThemes [bookEntry, workEntry] = [(''Books'', 1), (''Work'', 1)]
   \<and> map fst themeKeywords ! 0 = ''Work'' \<and> map fst themeKeywords ! 9 = ''Books''"
proof -
  have b: "themeHits bookEntry = [''Books'']"
    by (simp add: themeHits_def themeKeywords_def keywordHits_def bookEntry_def lower_eval)
  have w: "themeHits workEntry = [''Work'']"
    by (simp add: themeHits_def themeKeywords_def keywordHits_def workEntry_def lower_eval)
  have "themeCounts [bookEntry, workEntry] = [(''Books'', 1), (''Work'', 1)]"
    by (simp add: themeCounts_fold b w)
  then show ?thesis
    by (simp add: extractThemes_def sortByCountDesc_def themeKeywords_def)
qed

text \<open>
  Claim C9, amended: for every entry collection, the theme extractor's output
  is sorted by count in descending order and contains at most 5 themes, and
  themes with equal counts appear in the order in which they first received a
  match: the order of the entries, and within one entry the order in which the
  dictionary declares the themes.
\<close>

theorem extractThemes_sorted_top5:
  "length (extractThemes entries) \<le> 5
   \<and> sorted_wrt (\<lambda>p q. snd q \<le> snd p) (extractThemes entries)
   \<and> prefix (filter (\<lambda>p. snd p = c) (extractThemes entries))
            (filter (\<lambda>p. snd p = c) (themeCounts entries))
   \<and> map fst (themeCounts entries) = firsts (concat (map themeHits entries))"
proof -
  have "prefix (filter (\<lambda>p. snd p = c) (extractThemes entries))
               (filter (\<lambda>p. snd p = c) (sortByCountDesc (themeCounts entries)))"
    unfolding extractThemes_def by (intro filter_mono_prefix take_is_prefix)
  then have ties: "prefix (filter (\<lambda>p. snd p = c) (extractThemes entries))
            (filter (\<lambda>p. snd p = c) (themeCounts entries))"
    by (simp only: sortByCountDesc_stable)
  have srt: "sorted_wrt (\<lambda>p q. snd q \<le> snd p) (extractThemes entries)"
    unfolding extractThemes_def by (intro sorted_wrt_take sorted_desc_sortByCountDesc)
  have keys: "map fst (themeCounts entries) = firsts (concat (map themeHits entries))"
    by (simp add: themeCounts_fold keys_fold_increment)
  show ?thesis using ties srt keys by (simp add: extractThemes_def)
qed

end
